theory Spec2Isabelle
  imports Complex_Main "HOL-Library.AList" "HOL-Library.Log_Nat"
begin

section \<open>JavaScript values\<close>

text \<open>
  The facade \<^verbatim>\<open>friendly-box2d.js\<close> is glue code over JavaScript values: option objects,
  numbers, pixel strings, arrays of vertices. Numbers are IEEE 754 doubles: \<open>Fin q\<close> is
  the finite double that denotes the rational \<open>q\<close> (\<open>Fin 0\<close> is \<^verbatim>\<open>+0\<close>), \<open>NegZero\<close> is
  \<^verbatim>\<open>-0\<close>, and there are the two infinities and not-a-number. Strings are lists of code
  units below 256.
\<close>

datatype jsnum = NaN | PInf | NInf | NegZero | Fin rat

datatype jsval =
    Undefined
  | Null
  | Bool bool
  | Num jsnum
  | Str string
  | Arr "jsval list"
  | Obj "(string \<times> jsval) list"
  | Func nat

type_synonym obj = "(string \<times> jsval) list"

datatype error = TypeError

subsection \<open>Arithmetic\<close>

text \<open>
  Rounding to the nearest integer, ties to the even one, for \<open>z \<ge> 0\<close>.
\<close>

definition round_even :: "rat \<Rightarrow> int" where
  "round_even z =
     (let f = \<lfloor>z\<rfloor>; d = z - of_int f
      in if d < 1 / 2 then f else if 1 / 2 < d then f + 1
         else if even f then f else f + 1)"

text \<open>The binary exponent of \<open>x > 0\<close>: the \<open>k\<close> with \<open>2 powi k \<le> x < 2 powi (k + 1)\<close>.\<close>

definition flog2 :: "rat \<Rightarrow> int" where
  "flog2 x =
     (case quotient_of x of
        (a, b) \<Rightarrow> (let d = bitlen a - bitlen b in if 2 powi d \<le> x then d else d - 1))"

text \<open>
  The binary64 format: 53 significant bits, the least exponent of a unit in the last
  place, and the exponent at which a magnitude is infinite.
\<close>

definition emin :: int where
  "emin = - 1074"

definition emax :: int where
  "emax = 1024"

definition signed_zero :: "bool \<Rightarrow> jsnum" where
  "signed_zero neg = (if neg then NegZero else Fin 0)"

definition signed_inf :: "bool \<Rightarrow> jsnum" where
  "signed_inf neg = (if neg then NInf else PInf)"

text \<open>
  The double nearest to the exact magnitude \<open>x \<ge> 0\<close> with the sign \<open>neg\<close>, ties to even:
  the magnitude is rounded to a multiple of the unit in its last place, which is
  \<open>2 powi (k - 52)\<close> in the normal range and \<open>2 powi emin\<close> below it; a rounded magnitude
  of \<open>2 powi emax\<close> or more is infinite, one of zero keeps the sign.
\<close>

definition to_double :: "bool \<Rightarrow> rat \<Rightarrow> jsnum" where
  "to_double neg x =
     (if x = 0 then signed_zero neg
      else
        (let e = max (flog2 x - 52) emin;
             y = of_int (round_even (x / 2 powi e)) * 2 powi e
         in if y = 0 then signed_zero neg
            else if 2 powi emax \<le> y then signed_inf neg
            else Fin (if neg then - y else y)))"

text \<open>The Number value of a decimal literal of the source text, as \<^verbatim>\<open>0.3\<close> and \<^verbatim>\<open>9.8\<close>.\<close>

definition js_literal :: "rat \<Rightarrow> jsnum" where
  "js_literal q = to_double False q"

definition is_neg :: "jsnum \<Rightarrow> bool" where
  "is_neg a = (case a of NInf \<Rightarrow> True | NegZero \<Rightarrow> True | Fin q \<Rightarrow> q < 0 | _ \<Rightarrow> False)"

definition is_zero :: "jsnum \<Rightarrow> bool" where
  "is_zero a = (a = Fin 0 \<or> a = NegZero)"

definition is_finite :: "jsnum \<Rightarrow> bool" where
  "is_finite a = (case a of Fin q \<Rightarrow> True | NegZero \<Rightarrow> True | _ \<Rightarrow> False)"

definition magnitude :: "jsnum \<Rightarrow> rat" where
  "magnitude a = (case a of Fin q \<Rightarrow> \<bar>q\<bar> | _ \<Rightarrow> 0)"

text \<open>
  The operator \<^verbatim>\<open>*\<close> on numbers: the exact product of two finite operands is rounded;
  its sign is the exclusive or of the signs.
\<close>

definition num_mul :: "jsnum \<Rightarrow> jsnum \<Rightarrow> jsnum" where
  "num_mul a b =
     (if a = NaN \<or> b = NaN then NaN
      else if is_finite a \<and> is_finite b
        then to_double (is_neg a \<noteq> is_neg b) (magnitude a * magnitude b)
      else if is_zero a \<or> is_zero b then NaN
      else signed_inf (is_neg a \<noteq> is_neg b))"

text \<open>The operator \<^verbatim>\<open>/\<close> on numbers.\<close>

definition num_div :: "jsnum \<Rightarrow> jsnum \<Rightarrow> jsnum" where
  "num_div a b =
     (if a = NaN \<or> b = NaN then NaN
      else if is_finite a \<and> is_finite b
        then (if is_zero b
              then (if is_zero a then NaN else signed_inf (is_neg a \<noteq> is_neg b))
              else to_double (is_neg a \<noteq> is_neg b) (magnitude a / magnitude b))
      else if is_finite a then signed_zero (is_neg a \<noteq> is_neg b)
      else if is_finite b then signed_inf (is_neg a \<noteq> is_neg b)
      else NaN)"

subsection \<open>Characters\<close>

text \<open>White space as \<^verbatim>\<open>\s\<close> and \<^verbatim>\<open>parseFloat\<close> see it: TAB, LF, VT, FF, CR, SP, NBSP.\<close>

definition is_ws :: "char \<Rightarrow> bool" where
  "is_ws c = (c = CHR 0x09 \<or> c = CHR 0x0A \<or> c = CHR 0x0B \<or> c = CHR 0x0C \<or>
              c = CHR 0x0D \<or> c = CHR 0x20 \<or> c = CHR 0xA0)"

definition is_line_term :: "char \<Rightarrow> bool" where
  "is_line_term c = (c = CHR 0x0A \<or> c = CHR 0x0D)"

definition digit_of :: "char \<Rightarrow> nat option" where
  "digit_of c = map_of (zip ''0123456789'' [0, 1, 2, 3, 4, 5, 6, 7, 8, 9]) c"

definition hex_digit_of :: "char \<Rightarrow> nat option" where
  "hex_digit_of c =
     (if c = CHR ''a'' \<or> c = CHR ''A'' then Some 10
      else if c = CHR ''b'' \<or> c = CHR ''B'' then Some 11
      else if c = CHR ''c'' \<or> c = CHR ''C'' then Some 12
      else if c = CHR ''d'' \<or> c = CHR ''D'' then Some 13
      else if c = CHR ''e'' \<or> c = CHR ''E'' then Some 14
      else if c = CHR ''f'' \<or> c = CHR ''F'' then Some 15
      else digit_of c)"

definition is_digit :: "char \<Rightarrow> bool" where
  "is_digit c = (digit_of c \<noteq> None)"

definition digit_val :: "char \<Rightarrow> nat" where
  "digit_val c = (case hex_digit_of c of None \<Rightarrow> 0 | Some d \<Rightarrow> d)"

text \<open>The value of a run of digits in radix \<open>b\<close>, most significant digit first.\<close>

definition radix_val :: "nat \<Rightarrow> string \<Rightarrow> nat" where
  "radix_val b ds = foldl (\<lambda>a c. b * a + digit_val c) 0 ds"

definition digit_char :: "nat \<Rightarrow> char" where
  "digit_char d =
     (if d = 0 then CHR ''0'' else if d = 1 then CHR ''1'' else if d = 2 then CHR ''2''
      else if d = 3 then CHR ''3'' else if d = 4 then CHR ''4'' else if d = 5 then CHR ''5''
      else if d = 6 then CHR ''6'' else if d = 7 then CHR ''7'' else if d = 8 then CHR ''8''
      else CHR ''9'')"

text \<open>The decimal text of an array index, as \<^verbatim>\<open>for (key in array)\<close> produces it.\<close>

fun nat_text :: "nat \<Rightarrow> string" where
  "nat_text n = (if n < 10 then [digit_char n] else nat_text (n div 10) @ [digit_char (n mod 10)])"

declare nat_text.simps [simp del]

subsection \<open>Numeric literals\<close>

text \<open>
  \<^verbatim>\<open>ExponentPart\<close> of a decimal literal: \<^verbatim>\<open>e\<close> or \<^verbatim>\<open>E\<close>, an optional sign and at least one
  digit. Returns the exponent and the text after it; without a complete exponent part
  nothing is consumed.
\<close>

definition parse_exponent :: "string \<Rightarrow> int \<times> string" where
  "parse_exponent s =
     (case s of
        [] \<Rightarrow> (0, s)
      | e # t \<Rightarrow>
          if e = CHR ''e'' \<or> e = CHR ''E'' then
            (let (neg, u) = (case t of
                               [] \<Rightarrow> (False, t)
                             | c # v \<Rightarrow> if c = CHR ''-'' then (True, v)
                                        else if c = CHR ''+'' then (False, v)
                                        else (False, t));
                 ds = takeWhile is_digit u
             in if ds = [] then (0, s)
                else ((if neg then - int (radix_val 10 ds) else int (radix_val 10 ds)),
                      dropWhile is_digit u))
          else (0, s))"

text \<open>
  The longest prefix of \<open>s\<close> that is a \<^verbatim>\<open>StrDecimalLiteral\<close> of ECMAScript (an optional
  sign, then \<^verbatim>\<open>Infinity\<close>, or digits with an optional fraction and exponent), with its
  Number value and the text that follows it; \<open>None\<close> when no prefix is one. The value is
  the double nearest to the decimal (ECMAScript lets a runtime cut a literal after its
  twentieth significant digit; the runtimes round the whole literal, as here).
\<close>

definition parse_decimal :: "string \<Rightarrow> (jsnum \<times> string) option" where
  "parse_decimal s =
     (let (neg, s1) = (case s of
                         [] \<Rightarrow> (False, s)
                       | c # t \<Rightarrow> if c = CHR ''-'' then (True, t)
                                  else if c = CHR ''+'' then (False, t)
                                  else (False, s))
      in if take 8 s1 = ''Infinity'' then Some (signed_inf neg, drop 8 s1)
         else
           (let d1 = takeWhile is_digit s1;
                s2 = dropWhile is_digit s1;
                (d2, s3) = (case s2 of
                              [] \<Rightarrow> ([], s2)
                            | c # t \<Rightarrow> if c = CHR ''.''
                                       then (takeWhile is_digit t, dropWhile is_digit t)
                                       else ([], s2))
            in if d1 = [] \<and> d2 = [] then None
               else
                 (let (ex, s4) = parse_exponent s3;
                      m = of_nat (radix_val 10 (d1 @ d2)) / 10 ^ length d2 * 10 powi ex
                  in Some (to_double neg m, s4))))"

text \<open>The global function \<^verbatim>\<open>parseFloat\<close> on a string.\<close>

definition parseFloat :: "string \<Rightarrow> jsnum" where
  "parseFloat s =
     (case parse_decimal (dropWhile is_ws s) of None \<Rightarrow> NaN | Some (v, _) \<Rightarrow> v)"

text \<open>
  \<^verbatim>\<open>NonDecimalIntegerLiteral\<close>: \<^verbatim>\<open>0x\<close>, \<^verbatim>\<open>0o\<close> or \<^verbatim>\<open>0b\<close> (either case) and at least one digit of
  that radix.
\<close>

definition parse_radix :: "string \<Rightarrow> jsnum option" where
  "parse_radix s =
     (case s of
        z # r # ds \<Rightarrow>
          (let b = (if r = CHR ''x'' \<or> r = CHR ''X'' then 16
                    else if r = CHR ''o'' \<or> r = CHR ''O'' then 8
                    else if r = CHR ''b'' \<or> r = CHR ''B'' then 2 else (0::nat))
           in if z = CHR ''0'' \<and> b \<noteq> 0 \<and> ds \<noteq> [] \<and>
                 (\<forall>c \<in> set ds. hex_digit_of c \<noteq> None \<and> digit_val c < b)
              then Some (to_double False (of_nat (radix_val b ds))) else None)
      | _ \<Rightarrow> None)"

text \<open>
  \<^verbatim>\<open>StringToNumber\<close>, the conversion the arithmetic operators apply to a string: white space
  is trimmed at both ends, the empty string is 0, and the whole rest must be one literal.
\<close>

definition str_to_number :: "string \<Rightarrow> jsnum" where
  "str_to_number s =
     (let t = rev (dropWhile is_ws (rev (dropWhile is_ws s)))
      in if t = [] then Fin 0
         else case parse_radix t of
           Some v \<Rightarrow> v
         | None \<Rightarrow> (case parse_decimal t of
                      Some (v, []) \<Rightarrow> v
                    | _ \<Rightarrow> NaN))"

text \<open>
  \<^verbatim>\<open>ToNumber\<close> on a value. The text of a number (\<^verbatim>\<open>Number::toString\<close> of the runtime) is the
  parameter \<open>ts\<close> throughout. An array converts through its text: no element gives the
  empty string, one element gives that element's text (empty for \<^verbatim>\<open>undefined\<close> and
  \<^verbatim>\<open>null\<close>), several elements give a text with a comma, which is no literal. Objects are
  plain records and functions are opaque; the text of either is no literal.
\<close>

fun js_to_number :: "(jsnum \<Rightarrow> string) \<Rightarrow> jsval \<Rightarrow> jsnum" where
  "js_to_number ts Undefined = NaN"
| "js_to_number ts Null = Fin 0"
| "js_to_number ts (Bool b) = (if b then Fin 1 else Fin 0)"
| "js_to_number ts (Num n) = n"
| "js_to_number ts (Str s) = str_to_number s"
| "js_to_number ts (Arr []) = Fin 0"
| "js_to_number ts (Arr [e]) =
     (case e of
        Undefined \<Rightarrow> Fin 0
      | Null \<Rightarrow> Fin 0
      | Num n \<Rightarrow> str_to_number (ts n)
      | Str s \<Rightarrow> str_to_number s
      | Arr ys \<Rightarrow> js_to_number ts (Arr ys)
      | _ \<Rightarrow> NaN)"
| "js_to_number ts (Arr (e # e' # es)) = NaN"
| "js_to_number ts (Obj ps) = NaN"
| "js_to_number ts (Func f) = NaN"

text \<open>\<^verbatim>\<open>ToBoolean\<close>, as \<^verbatim>\<open>if\<close>, \<^verbatim>\<open>!\<close> and \<^verbatim>\<open>?:\<close> apply it.\<close>

fun js_truthy :: "jsval \<Rightarrow> bool" where
  "js_truthy Undefined = False"
| "js_truthy Null = False"
| "js_truthy (Bool b) = b"
| "js_truthy (Num n) = (n \<noteq> NaN \<and> \<not> is_zero n)"
| "js_truthy (Str s) = (s \<noteq> [])"
| "js_truthy _ = True"

text \<open>\<^verbatim>\<open>v == undefined\<close>: true of \<^verbatim>\<open>undefined\<close> and \<^verbatim>\<open>null\<close> only.\<close>

fun is_nullish :: "jsval \<Rightarrow> bool" where
  "is_nullish Undefined = True"
| "is_nullish Null = True"
| "is_nullish _ = False"

section \<open>Objects and the helpers \<^verbatim>\<open>map\<close> and \<^verbatim>\<open>merge\<close>\<close>

text \<open>
  A plain object is the list of its own properties in creation order, with distinct keys.
  \<open>has_key\<close> is \<^verbatim>\<open>key in obj\<close> and \<^verbatim>\<open>obj.hasOwnProperty(key)\<close>, which agree on plain objects
  for every key the facade uses; \<open>obj_get\<close> is \<^verbatim>\<open>obj[key]\<close>; assignment \<^verbatim>\<open>obj[key] = v\<close> is
  \<^const>\<open>AList.update\<close>, which overwrites in place or appends.
\<close>

definition has_key :: "obj \<Rightarrow> string \<Rightarrow> bool" where
  "has_key ob key = (map_of ob key \<noteq> None)"

definition obj_get :: "obj \<Rightarrow> string \<Rightarrow> jsval" where
  "obj_get ob key = (case map_of ob key of None \<Rightarrow> Undefined | Some v \<Rightarrow> v)"

text \<open>The keys an array or a string enumerates: the decimal texts of its indices.\<close>

definition indexed :: "'a list \<Rightarrow> (string \<times> 'a) list" where
  "indexed xs = zip (map nat_text [0..<length xs]) xs"

text \<open>
  The own enumerable properties \<^verbatim>\<open>for (key in v) if (v.hasOwnProperty(key))\<close> visits, in
  the order of the list (the runtime visits index-like keys of a plain object first).
\<close>

fun own_props :: "jsval \<Rightarrow> (string \<times> jsval) list" where
  "own_props (Obj ps) = ps"
| "own_props (Arr xs) = indexed xs"
| "own_props (Str s) = indexed (map (\<lambda>c. Str [c]) s)"
| "own_props _ = []"

text \<open>
  \<^verbatim>\<open>function map(obj, func, context)\<close>: the results of \<^verbatim>\<open>func(key, obj[key], context)\<close> over the
  own properties of \<^verbatim>\<open>obj\<close>, given here as the property list.
\<close>

definition map_js :: "(string \<times> 'a) list \<Rightarrow> (string \<Rightarrow> 'a \<Rightarrow> 'c \<Rightarrow> 'r) \<Rightarrow> 'c \<Rightarrow> 'r list" where
  "map_js props func context = map (\<lambda>(key, val). func key val context) props"

text \<open>
  \<^verbatim>\<open>function merge(defaults, settings)\<close>: its callback assigns to \<^verbatim>\<open>settings\<close> while \<^verbatim>\<open>map\<close>
  walks \<^verbatim>\<open>defaults\<close>, so the walk is a fold over the properties of \<^verbatim>\<open>defaults\<close> that
  threads \<^verbatim>\<open>settings\<close>. The result is the mutated \<^verbatim>\<open>settings\<close> object.
\<close>

definition merge :: "obj \<Rightarrow> obj \<Rightarrow> obj" where
  "merge defaults settings =
     foldl (\<lambda>st (key, val).
              if has_key defaults key \<and> \<not> has_key st key
              then AList.update key (obj_get defaults key) st else st)
       settings defaults"

text \<open>
  \<^verbatim>\<open>e[i]\<close> and \<^verbatim>\<open>g.x\<close> on a value that is neither \<^verbatim>\<open>undefined\<close> nor \<^verbatim>\<open>null\<close> (on those the
  access throws, which the callers below write out).
\<close>

fun get_index :: "jsval \<Rightarrow> nat \<Rightarrow> jsval" where
  "get_index (Arr xs) i = (if i < length xs then xs ! i else Undefined)"
| "get_index (Obj ps) i = obj_get ps (nat_text i)"
| "get_index (Str s) i = (if i < length s then Str [s ! i] else Undefined)"
| "get_index _ i = Undefined"

fun get_named :: "jsval \<Rightarrow> string \<Rightarrow> jsval" where
  "get_named (Obj ps) key = obj_get ps key"
| "get_named _ key = Undefined"

section \<open>The engine, as the facade drives it\<close>

text \<open>
  box2dweb is outside the repository. Its constructors and setters are modelled as records
  of the arguments the facade passes; a body handle is the index of the body in the
  engine world's table.
\<close>

record vec2 =
  vec_x :: jsval
  vec_y :: jsval

definition Vec2 :: "jsval \<Rightarrow> jsval \<Rightarrow> vec2" where
  "Vec2 a b = \<lparr>vec_x = a, vec_y = b\<rparr>"

datatype body_type = b2_staticBody | b2_dynamicBody

datatype shape =
    SetAsBox jsnum jsnum
  | SetAsArray "vec2 list" nat
  | CircleShape jsval

record fixture_def =
  density :: jsval
  friction :: jsval
  restitution :: jsval
  fshape :: shape

record body_def =
  btype :: body_type
  position :: vec2

record body =
  bdef :: body_def
  fixtures :: "fixture_def list"
  angle :: jsval
  body_id :: jsval
  sensorCallback :: jsval

record b2world =
  b2_gravity :: vec2
  b2_doSleep :: jsval
  b2_bodies :: "body list"

text \<open>
  The closure state of one \<^verbatim>\<open>Box2D.world\<close>: the settings object it was constructed with, the
  engine world, and the registry \<^verbatim>\<open>bodies\<close> of handles.
\<close>

record world =
  settings :: obj
  b2 :: b2world
  bodies :: "nat list"

definition world_defaults :: obj where
  "world_defaults =
     [(''ignoreStatic'', Bool True),
      (''drawRatio'', Num (Fin 1)),
      (''gravity'', Obj [(''x'', Num (Fin 0)), (''y'', Num (js_literal (98 / 10)))])]"

text \<open>
  \<^verbatim>\<open>function world(settings)\<close>, the constructor. Reading \<^verbatim>\<open>settings.gravity.x\<close> throws when
  the caller gave \<^verbatim>\<open>gravity\<close> as \<^verbatim>\<open>undefined\<close> or \<^verbatim>\<open>null\<close>.
\<close>

definition new_world :: "obj \<Rightarrow> error + world" where
  "new_world st =
     (let st' = merge world_defaults st;
          g = obj_get st' ''gravity''
      in if is_nullish g then Inl TypeError
         else Inr \<lparr>settings = st',
                   b2 = \<lparr>b2_gravity = Vec2 (get_named g ''x'') (get_named g ''y''),
                         b2_doSleep = obj_get st' ''ignoreStatic'',
                         b2_bodies = []\<rparr>,
                   bodies = []\<rparr>)"

definition drawRatio :: "world \<Rightarrow> jsval" where
  "drawRatio w = obj_get (settings w) ''drawRatio''"

text \<open>
  \<^verbatim>\<open>step\<close> and \<^verbatim>\<open>clearForces\<close> hand their arguments to the engine; what the engine does to its
  own world is the parameter.
\<close>

definition step :: "(b2world \<Rightarrow> b2world) \<Rightarrow> world \<Rightarrow> world" where
  "step Step w = w\<lparr>b2 := Step (b2 w)\<rparr>"

definition clearForces :: "(b2world \<Rightarrow> b2world) \<Rightarrow> world \<Rightarrow> world" where
  "clearForces ClearForces w = w\<lparr>b2 := ClearForces (b2 w)\<rparr>"

text \<open>\<^verbatim>\<open>iterBodies(func, context)\<close> is \<^verbatim>\<open>map(bodies, func, context)\<close>.\<close>

definition iterBodies :: "world \<Rightarrow> (string \<Rightarrow> nat \<Rightarrow> 'c \<Rightarrow> 'r) \<Rightarrow> 'c \<Rightarrow> 'r list" where
  "iterBodies w func context = map_js (indexed (bodies w)) func context"

text \<open>
  \<^verbatim>\<open>world.prototype.gravity\<close>: the getter returns the current vector; the setter returns
  nothing and installs a new vector, axis by axis.
\<close>

definition gravity :: "world \<Rightarrow> jsval \<Rightarrow> vec2 option \<times> world" where
  "gravity w g =
     (let current = b2_gravity (b2 w)
      in if \<not> js_truthy g then (Some current, w)
         else (None,
               w\<lparr>b2 := (b2 w)\<lparr>b2_gravity :=
                    Vec2 (if is_nullish (get_named g ''x'') then vec_x current
                          else get_named g ''x'')
                         (if is_nullish (get_named g ''y'') then vec_y current
                          else get_named g ''y'')\<rparr>\<rparr>))"

section \<open>Unit conversion\<close>

definition in_class :: "char \<Rightarrow> bool" where
  "in_class c = (c = CHR ''-'' \<or> is_digit c \<or> c = CHR ''.'')"

definition is_p :: "char \<Rightarrow> bool" where
  "is_p c = (c = CHR ''p'' \<or> c = CHR ''P'')"

definition is_x :: "char \<Rightarrow> bool" where
  "is_x c = (c = CHR ''x'' \<or> c = CHR ''X'')"

text \<open>
  The body \<^verbatim>\<open>\s*([-0-9.]+)\s*px\<close> of the pattern, case-insensitive, matched at the head of
  \<open>s\<close>: the captured group and the text after the match. White space, the class
  \<^verbatim>\<open>[-0-9.]\<close> and the letter \<^verbatim>\<open>p\<close> are pairwise disjoint, so backtracking into a shorter run
  never helps and the greedy runs decide the match.
\<close>

definition match_at :: "string \<Rightarrow> (string \<times> string) option" where
  "match_at s =
     (let s1 = dropWhile is_ws s;
          g = takeWhile in_class s1;
          s3 = dropWhile is_ws (dropWhile in_class s1)
      in if g = [] then None
         else case s3 of
           p # x # rest \<Rightarrow> if is_p p \<and> is_x x then Some (g, rest) else None
         | _ \<Rightarrow> None)"

text \<open>
  The leftmost match of \<^verbatim>\<open>/^\s*([-0-9.]+)\s*px/im\<close>: with the flag \<^verbatim>\<open>m\<close>, \<^verbatim>\<open>^\<close> holds at the
  start of the input and after every line terminator. \<open>bol\<close> says whether \<open>s\<close> starts a
  line, \<open>pre\<close> is the text before \<open>s\<close>. Returns the text before the match, the group and
  the text after the match.
\<close>

fun px_search :: "bool \<Rightarrow> string \<Rightarrow> string \<Rightarrow> (string \<times> string \<times> string) option" where
  "px_search bol pre [] =
     (case (if bol then match_at [] else None) of
        Some (g, rest) \<Rightarrow> Some (pre, g, rest)
      | None \<Rightarrow> None)"
| "px_search bol pre (c # cs) =
     (case (if bol then match_at (c # cs) else None) of
        Some (g, rest) \<Rightarrow> Some (pre, g, rest)
      | None \<Rightarrow> px_search (is_line_term c) (pre @ [c]) cs)"

text \<open>
  \<^verbatim>\<open>str.replace(/^\s*([-0-9.]+)\s*px/im, fn)\<close>: the first match is replaced by the text of
  what \<^verbatim>\<open>fn\<close> returns for the group; a string without a match is returned as it is.
\<close>

definition replace_px :: "(string \<Rightarrow> string) \<Rightarrow> string \<Rightarrow> string" where
  "replace_px fn s =
     (case px_search True [] s of
        None \<Rightarrow> s
      | Some (pre, g, rest) \<Rightarrow> pre @ fn g @ rest)"

text \<open>\<^verbatim>\<open>world.prototype.parsePixels\<close>.\<close>

definition parsePixels :: "(jsnum \<Rightarrow> string) \<Rightarrow> world \<Rightarrow> jsval \<Rightarrow> jsval" where
  "parsePixels ts w str =
     (case str of
        Str s \<Rightarrow>
          Num (parseFloat (replace_px
            (\<lambda>g. ts (num_div (num_mul (parseFloat g) (Fin 1)) (js_to_number ts (drawRatio w))))
            s))
      | _ \<Rightarrow> str)"

text \<open>\<^verbatim>\<open>world.prototype.toPixels\<close>.\<close>

definition toPixels :: "(jsnum \<Rightarrow> string) \<Rightarrow> world \<Rightarrow> jsval \<Rightarrow> jsnum" where
  "toPixels ts w num = num_mul (js_to_number ts num) (js_to_number ts (drawRatio w))"

text \<open>\<^verbatim>\<open>num.replace(/px/i, '')\<close>: the first \<^verbatim>\<open>px\<close>, in either case, is removed.\<close>

fun strip_px :: "string \<Rightarrow> string" where
  "strip_px (a # b # s) = (if is_p a \<and> is_x b then s else a # strip_px (b # s))"
| "strip_px s = s"

text \<open>\<^verbatim>\<open>world.prototype.toMeters\<close>.\<close>

definition toMeters :: "(jsnum \<Rightarrow> string) \<Rightarrow> world \<Rightarrow> jsval \<Rightarrow> jsnum" where
  "toMeters ts w num =
     (let num' = (case num of Str s \<Rightarrow> Str (strip_px s) | _ \<Rightarrow> num)
      in num_div (js_to_number ts num') (js_to_number ts (drawRatio w)))"

section \<open>Creating a body\<close>

definition body_defaults :: obj where
  "body_defaults =
     [(''shape'', Str ''box''),
      (''static'', Bool True),
      (''density'', Num (Fin 1)),
      (''friction'', Num (Fin (5 / 10))),
      (''restitution'', Num (js_literal (3 / 10))),
      (''sensorCallback'', Undefined),
      (''x'', Num (Fin 0)),
      (''y'', Num (Fin 0)),
      (''rotation'', Num (Fin 0)),
      (''radius'', Undefined),
      (''width'', Undefined),
      (''height'', Undefined),
      (''vertices'', Undefined),
      (''id'', Undefined)]"

text \<open>
  The first statements of \<^verbatim>\<open>addBody\<close> after the arity check, on the caller's object \<open>st\<close>
  with the defaults already merged in: the five distances are converted into a fresh
  object literal, \<^verbatim>\<open>merge(settings, {...})\<close> copies every other property of the caller's
  object into that literal and returns it, and the local variable \<^verbatim>\<open>settings\<close> is rebound
  to it; \<^verbatim>\<open>vertices\<close>, when truthy, forces the shape tag in the literal.
\<close>

definition converted :: "(jsnum \<Rightarrow> string) \<Rightarrow> world \<Rightarrow> obj \<Rightarrow> obj" where
  "converted ts w st =
     (let lit = merge st
            [(''x'', parsePixels ts w (obj_get st ''x'')),
             (''y'', parsePixels ts w (obj_get st ''y'')),
             (''radius'', parsePixels ts w (obj_get st ''radius'')),
             (''width'', parsePixels ts w (obj_get st ''width'')),
             (''height'', parsePixels ts w (obj_get st ''height''))]
      in if js_truthy (obj_get lit ''vertices'')
         then AList.update ''shape'' (Str ''polygon'') lit else lit)"

text \<open>
  The callback of the polygon branch:
  \<^verbatim>\<open>new Vec2(w.parsePixels(e[0]), w.parsePixels(e[1]))\<close>. Indexing \<^verbatim>\<open>undefined\<close> or \<^verbatim>\<open>null\<close>
  throws.
\<close>

definition vertex :: "(jsnum \<Rightarrow> string) \<Rightarrow> world \<Rightarrow> jsval \<Rightarrow> error + vec2" where
  "vertex ts w e =
     (if is_nullish e then Inl TypeError
      else Inr (Vec2 (parsePixels ts w (get_index e 0)) (parsePixels ts w (get_index e 1))))"

text \<open>The results of a callback that may throw: the first exception ends the walk.\<close>

fun collect :: "(error + 'a) list \<Rightarrow> error + 'a list" where
  "collect [] = Inr []"
| "collect (Inl e # rs) = Inl e"
| "collect (Inr v # rs) = (case collect rs of Inl e \<Rightarrow> Inl e | Inr vs \<Rightarrow> Inr (v # vs))"

text \<open>The \<^verbatim>\<open>switch (settings.shape)\<close> of \<^verbatim>\<open>addBody\<close>; the cases compare with \<^verbatim>\<open>===\<close>.\<close>

definition make_shape :: "(jsnum \<Rightarrow> string) \<Rightarrow> world \<Rightarrow> obj \<Rightarrow> error + shape" where
  "make_shape ts w st =
     (let tag = obj_get st ''shape''
      in if tag = Str ''box'' then
           Inr (SetAsBox (num_div (js_to_number ts (obj_get st ''width'')) (Fin 2))
                         (num_div (js_to_number ts (obj_get st ''height'')) (Fin 2)))
         else if tag = Str ''polygon'' then
           (case collect (map_js (own_props (obj_get st ''vertices''))
                            (\<lambda>i e c. vertex ts w e) ()) of
              Inl e \<Rightarrow> Inl e
            | Inr vec \<Rightarrow> Inr (SetAsArray vec (length vec)))
         else if tag = Str ''circle'' then Inr (CircleShape (obj_get st ''radius''))
         else Inl TypeError)"

text \<open>
  The body as it stands when \<^verbatim>\<open>addBody\<close> returns it: created from the body definition,
  given its one fixture, the sensor callback when that is a function, the angle and
  the identifier.
\<close>

definition make_body :: "obj \<Rightarrow> shape \<Rightarrow> body" where
  "make_body st sh =
     \<lparr>bdef = \<lparr>btype = (if js_truthy (obj_get st ''static'') then b2_staticBody
                        else b2_dynamicBody),
              position = Vec2 (obj_get st ''x'') (obj_get st ''y'')\<rparr>,
      fixtures = [\<lparr>density = obj_get st ''density'',
                   friction = obj_get st ''friction'',
                   restitution = obj_get st ''restitution'',
                   fshape = sh\<rparr>],
      angle = obj_get st ''rotation'',
      body_id = obj_get st ''id'',
      sensorCallback = (case obj_get st ''sensorCallback'' of
                          Func f \<Rightarrow> Func f
                        | _ \<Rightarrow> Undefined)\<rparr>"

text \<open>
  \<^verbatim>\<open>this.addBody\<close>. The argument is \<open>None\<close> for a call without arguments and the caller's
  options object otherwise. The result is what the call returns or throws, the caller's
  object as the call leaves it, and the world as the call leaves it.
\<close>

definition addBody ::
  "(jsnum \<Rightarrow> string) \<Rightarrow> world \<Rightarrow> obj option \<Rightarrow> (error + nat) \<times> obj option \<times> world" where
  "addBody ts w arg =
     (case arg of
        None \<Rightarrow> (Inl TypeError, None, w)
      | Some caller \<Rightarrow>
          (let caller' = merge body_defaults caller;
               st = converted ts w caller'
           in case make_shape ts w st of
                Inl e \<Rightarrow> (Inl e, Some caller', w)
              | Inr sh \<Rightarrow>
                  (let h = length (b2_bodies (b2 w));
                       w' = w\<lparr>b2 := (b2 w)\<lparr>b2_bodies := b2_bodies (b2 w) @ [make_body st sh]\<rparr>\<rparr>
                   in (Inr h, Some caller', w'\<lparr>bodies := bodies w' @ [h]\<rparr>))))"

section \<open>Random impulse\<close>

definition impulse_defaults :: obj where
  "impulse_defaults =
     [(''minAngle'', Num (Fin 0)), (''maxAngle'', Num (Fin 360)), (''scale'', Str ''10px'')]"

text \<open>
  \<^verbatim>\<open>world.prototype.randomImpulse\<close>, as far as the caller's options object goes: the
  defaults are merged into it and \<^verbatim>\<open>scale\<close> is overwritten with its conversion. The
  statements after that read the three options, draw the angle and hand the impulse to
  the engine body; they do not assign to the object again.
\<close>

definition randomImpulse :: "(jsnum \<Rightarrow> string) \<Rightarrow> world \<Rightarrow> obj \<Rightarrow> obj" where
  "randomImpulse ts w st =
     (let st' = merge impulse_defaults st
      in AList.update ''scale'' (parsePixels ts w (obj_get st' ''scale'')) st')"

section \<open>A text for numbers\<close>

text \<open>
  An instance of the parameter \<open>ts\<close> for evaluating the definitions on concrete inputs:
  positional decimal text with up to 17 fraction digits. (The runtime prints the shortest
  text that reads back as the same double.)
\<close>

fun frac_digits :: "nat \<Rightarrow> rat \<Rightarrow> string" where
  "frac_digits 0 f = []"
| "frac_digits (Suc k) f =
     (if f = 0 then []
      else digit_char (nat \<lfloor>f * 10\<rfloor>) # frac_digits k (f * 10 - of_int \<lfloor>f * 10\<rfloor>))"

definition numberToString :: "jsnum \<Rightarrow> string" where
  "numberToString n =
     (case n of
        NaN \<Rightarrow> ''NaN''
      | PInf \<Rightarrow> ''Infinity''
      | NInf \<Rightarrow> ''-Infinity''
      | NegZero \<Rightarrow> ''0''
      | Fin q \<Rightarrow>
          (let fr = frac_digits 17 (\<bar>q\<bar> - of_int \<lfloor>\<bar>q\<bar>\<rfloor>)
           in (if q < 0 then ''-'' else []) @ nat_text (nat \<lfloor>\<bar>q\<bar>\<rfloor>) @
              (if fr = [] then [] else CHR ''.'' # fr)))"

section \<open>Worlds and inputs for the statements\<close>

text \<open>
  The world \<^verbatim>\<open>new Box2D.world({drawRatio: r})\<close>, and \<^verbatim>\<open>new Box2D.world({})\<close> for \<open>r = 1\<close>.
\<close>

definition world_of_ratio :: "rat \<Rightarrow> world" where
  "world_of_ratio r =
     \<lparr>settings = [(''drawRatio'', Num (Fin r)),
                  (''ignoreStatic'', Bool True),
                  (''gravity'', Obj [(''x'', Num (Fin 0)), (''y'', Num (js_literal (98 / 10)))])],
      b2 = \<lparr>b2_gravity = Vec2 (Num (Fin 0)) (Num (js_literal (98 / 10))),
            b2_doSleep = Bool True,
            b2_bodies = []\<rparr>,
      bodies = []\<rparr>"

text \<open>The least positive double, \<^verbatim>\<open>Number.MIN_VALUE\<close>.\<close>

definition min_double :: rat where
  "min_double = 2 powi emin"

text \<open>The shapes of the fixtures of the body behind a handle.\<close>

definition shapes_of :: "world \<Rightarrow> nat \<Rightarrow> shape list" where
  "shapes_of w h = map fshape (fixtures (b2_bodies (b2 w) ! h))"

text \<open>
  The decimal literals of the pixel strings, as the statements below quantify over them:
  an optional minus sign, digits, an optional point, digits. With a point the last run
  is the fraction.
\<close>

definition px_literal :: "bool \<Rightarrow> string \<Rightarrow> bool \<Rightarrow> string \<Rightarrow> string" where
  "px_literal neg ds1 dot ds2 =
     (if neg then ''-'' else []) @ ds1 @ (if dot then ''.'' else []) @ ds2"

definition literal_magnitude :: "string \<Rightarrow> bool \<Rightarrow> string \<Rightarrow> rat" where
  "literal_magnitude ds1 dot ds2 =
     of_nat (radix_val 10 (ds1 @ ds2)) / 10 ^ (if dot then length ds2 else 0)"

definition literal_value :: "bool \<Rightarrow> string \<Rightarrow> bool \<Rightarrow> string \<Rightarrow> rat" where
  "literal_value neg ds1 dot ds2 =
     (if neg then - literal_magnitude ds1 dot ds2 else literal_magnitude ds1 dot ds2)"

text \<open>The Number value of the literal: the double nearest to it.\<close>

definition literal_number :: "bool \<Rightarrow> string \<Rightarrow> bool \<Rightarrow> string \<Rightarrow> jsnum" where
  "literal_number neg ds1 dot ds2 = to_double neg (literal_magnitude ds1 dot ds2)"

text \<open>
  What reads back from the text of a number: the number itself, and \<^verbatim>\<open>+0\<close> for \<^verbatim>\<open>-0\<close>, whose
  text is \<^verbatim>\<open>"0"\<close>.
\<close>

definition pos_zero :: "jsnum \<Rightarrow> jsnum" where
  "pos_zero a = (if a = NegZero then Fin 0 else a)"

text \<open>
  Text at which a decimal literal ends: nothing, or a character that continues neither
  its digits, nor a fraction, nor an exponent.
\<close>

definition stops :: "string \<Rightarrow> bool" where
  "stops r =
     (case r of
        [] \<Rightarrow> True
      | c # _ \<Rightarrow> \<not> is_digit c \<and> c \<noteq> CHR ''.'' \<and> c \<noteq> CHR ''e'' \<and> c \<noteq> CHR ''E'')"

text \<open>The five distance-bearing keys of the body options.\<close>

definition distance_keys :: "string set" where
  "distance_keys = {''x'', ''y'', ''radius'', ''width'', ''height''}"

section \<open>Sequences of calls\<close>

text \<open>
  The calls on a world that reach its closure state, and a run of them: the world after
  the run, with the handles the successful \<^verbatim>\<open>addBody\<close> calls returned, in call order.
\<close>

datatype call = AddBody "obj option" | Gravity jsval | Step | ClearForces

fun perform ::
  "(jsnum \<Rightarrow> string) \<Rightarrow> (b2world \<Rightarrow> b2world) \<Rightarrow> (b2world \<Rightarrow> b2world) \<Rightarrow> world \<Rightarrow> call \<Rightarrow>
   world \<times> nat list" where
  "perform ts S C w (AddBody arg) =
     (case addBody ts w arg of
        (Inr h, cal, w') \<Rightarrow> (w', [h])
      | (Inl e, cal, w') \<Rightarrow> (w', []))"
| "perform ts S C w (Gravity g) = (snd (gravity w g), [])"
| "perform ts S C w Step = (step S w, [])"
| "perform ts S C w ClearForces = (clearForces C w, [])"

fun run ::
  "(jsnum \<Rightarrow> string) \<Rightarrow> (b2world \<Rightarrow> b2world) \<Rightarrow> (b2world \<Rightarrow> b2world) \<Rightarrow> world \<Rightarrow> call list \<Rightarrow>
   world \<times> nat list" where
  "run ts S C w [] = (w, [])"
| "run ts S C w (c # cs) =
     (case perform ts S C w c of
        (w1, hs1) \<Rightarrow> (case run ts S C w1 cs of (w2, hs2) \<Rightarrow> (w2, hs1 @ hs2)))"

section \<open>Evaluation and basic facts\<close>

lemmas char_defs = is_ws_def is_line_term_def is_digit_def digit_of_def hex_digit_of_def
  digit_val_def in_class_def is_p_def is_x_def digit_char_def

lemmas parse_defs = parseFloat_def parse_decimal_def parse_exponent_def radix_val_def
  str_to_number_def parse_radix_def power_int_def

lemmas obj_defs = has_key_def obj_get_def merge_def indexed_def map_js_def

lemmas px_defs = match_at_def replace_px_def parsePixels_def toPixels_def toMeters_def
  drawRatio_def


lemmas world_defs = world_of_ratio_def Vec2_def

subsection \<open>Rounding\<close>

lemma pow2_of_bitlen:
  assumes "0 < a"
  shows "(2::rat) powi (bitlen a - 1) \<le> of_int a" "of_int a < (2::rat) powi bitlen a"
proof -
  from bitlen_bounds [OF assms] have lo: "2 ^ nat (bitlen a - 1) \<le> a" and hi: "a < 2 ^ nat (bitlen a)"
    by simp_all
  have ge1: "1 \<le> bitlen a" using assms by (auto simp: bitlen_alt_def)
  have "(2::rat) powi (bitlen a - 1) = 2 ^ nat (bitlen a - 1)"
    using ge1 by (simp add: power_int_nonneg_exp)
  also have "\<dots> = of_int (2 ^ nat (bitlen a - 1))" by simp
  also have "\<dots> \<le> of_int a" using lo by (simp only: of_int_le_iff)
  finally show "(2::rat) powi (bitlen a - 1) \<le> of_int a" .
  have "of_int a < (of_int (2 ^ nat (bitlen a)) :: rat)" using hi by (simp only: of_int_less_iff)
  also have "\<dots> = 2 ^ nat (bitlen a)" by simp
  also have "\<dots> = 2 powi bitlen a" using ge1 by (simp add: power_int_nonneg_exp)
  finally show "of_int a < (2::rat) powi bitlen a" .
qed

lemma flog2_bounds:
  assumes "0 < x"
  shows "2 powi flog2 x \<le> x" and "x < 2 powi (flog2 x + 1)"
proof -
  obtain a b where q: "quotient_of x = (a, b)" by (cases "quotient_of x")
  have b: "0 < b" using quotient_of_denom_pos [OF q] .
  have x: "x = of_int a / of_int b" using quotient_of_div [OF q] .
  have a: "0 < a" using assms b x by (simp add: zero_less_divide_iff)
  let ?la = "bitlen a" and ?lb = "bitlen b"
  let ?d = "?la - ?lb"
  have bpos: "(0::rat) < of_int b" using b by simp
  have up: "x < 2 powi (?d + 1)"
  proof -
    have "x < 2 powi ?la / of_int b"
      unfolding x using pow2_of_bitlen(2) [OF a] bpos by (simp add: divide_strict_right_mono)
    also have "\<dots> \<le> 2 powi ?la / 2 powi (?lb - 1)"
      using pow2_of_bitlen(1) [OF b] by (simp add: frac_le)
    also have "\<dots> = 2 powi (?d + 1)"
      by (simp add: power_int_diff power_int_add)
    finally show ?thesis .
  qed
  have lo: "2 powi (?d - 1) \<le> x"
  proof -
    have "(2::rat) powi (?d - 1) = 2 powi (?la - 1) / 2 powi ?lb"
      by (simp add: power_int_diff power_int_add)
    also have "\<dots> \<le> of_int a / 2 powi ?lb"
      using pow2_of_bitlen(1) [OF a] by (simp add: divide_right_mono)
    also have "\<dots> \<le> of_int a / of_int b"
      using pow2_of_bitlen(2) [OF b] a bpos by (simp add: frac_le)
    finally show ?thesis unfolding x .
  qed
  have f: "flog2 x = (if 2 powi ?d \<le> x then ?d else ?d - 1)"
    by (simp add: flog2_def q Let_def)
  show "2 powi flog2 x \<le> x" using lo by (simp add: f)
  show "x < 2 powi (flog2 x + 1)" using up by (auto simp: f not_le)
qed

lemma round_even_error:
  "\<bar>of_int (round_even z) - z\<bar> \<le> 1 / 2"
proof -
  have "of_int \<lfloor>z\<rfloor> \<le> z" "z < of_int \<lfloor>z\<rfloor> + 1" by linarith+
  then show ?thesis
    by (auto simp: round_even_def Let_def abs_le_iff)
qed

lemma round_even_of_int [simp]: "round_even (of_int m) = m"
  by (simp add: round_even_def)


lemma pow2_le_pos: "(2::rat) powi k \<le> x \<Longrightarrow> 0 < x"
  by (rule less_le_trans [of 0 "2 powi k"]) simp_all

lemma pow2_exp_less:
  assumes "(2::rat) powi a \<le> x" "x < 2 powi b"
  shows "a < b"
proof (rule ccontr)
  assume "\<not> a < b"
  then have "(2::rat) powi b \<le> 2 powi a" by (simp add: power_int_increasing)
  with assms show False by linarith
qed

lemma flog2_eq:
  assumes "2 powi k \<le> x" "x < 2 powi (k + 1)"
  shows "flog2 x = k"
proof -
  have x: "0 < x" using assms(1) by (rule pow2_le_pos)
  from pow2_exp_less [OF flog2_bounds(1) [OF x] assms(2)] have "flog2 x < k + 1" .
  moreover from pow2_exp_less [OF assms(1) flog2_bounds(2) [OF x]] have "k < flog2 x + 1" .
  ultimately show ?thesis by simp
qed

lemma to_double_unfold:
  assumes x: "0 < x" and e: "e = max (flog2 x - 52) emin"
    and y: "y = of_int (round_even (x / 2 powi e)) * 2 powi e"
    and pos: "0 < y" and fin: "y < 2 powi emax"
  shows "to_double neg x = Fin (if neg then - y else y)"
  using x pos fin unfolding to_double_def e [symmetric] Let_def y [symmetric]
  by (simp add: not_le)

lemma to_double_normal:
  assumes lo: "2 powi (emin + 52) \<le> x" and hi: "x < 2 powi (emax - 1)"
  shows "\<exists>y. to_double neg x = Fin (if neg then - y else y) \<and> 0 < y \<and>
             \<bar>y - x\<bar> \<le> x / 2 ^ 53"
proof -
  have x: "0 < x" using lo by (rule pow2_le_pos)
  let ?k = "flog2 x"
  have kb: "2 powi ?k \<le> x" "x < 2 powi (?k + 1)" using flog2_bounds [OF x] by simp_all
  from pow2_exp_less [OF lo kb(2)] have k: "emin + 52 \<le> ?k" by simp
  define e where "e = ?k - 52"
  have e: "e = max (?k - 52) emin" using k by (simp add: e_def)
  define z where "z = x / 2 powi e"
  define M where "M = round_even z"
  define y where "y = of_int M * (2::rat) powi e"
  have pe: "(0::rat) < 2 powi e" by simp
  have k52: "(2::rat) powi ?k = 2 powi e * 2 ^ 52"
    by (simp add: e_def power_int_diff)
  have zlo: "2 ^ 52 \<le> z"
    using kb(1) pe unfolding z_def k52 by (simp add: pos_le_divide_eq mult.commute)
  have err: "\<bar>of_int M - z\<bar> \<le> 1 / 2" unfolding M_def by (rule round_even_error)
  have "of_int M \<ge> z - 1 / 2" using err by linarith
  moreover have "(1::rat) \<le> 2 ^ 52" by simp
  ultimately have "(of_int M :: rat) > 0" using zlo by linarith
  then have ypos: "0 < y" unfolding y_def using pe by simp
  have xz: "x = z * 2 powi e" unfolding z_def by simp
  have "y - x = (of_int M - z) * 2 powi e" unfolding y_def xz by (simp add: algebra_simps)
  then have "\<bar>y - x\<bar> = \<bar>of_int M - z\<bar> * 2 powi e" by (simp add: abs_mult)
  also have "\<dots> \<le> 1 / 2 * 2 powi e" using err pe by (simp add: mult_right_mono)
  also have "\<dots> \<le> x / 2 ^ 53"
  proof -
    have "2 powi e * 2 ^ 52 \<le> x" using kb(1) unfolding k52 .
    then show ?thesis by simp
  qed
  finally have bound: "\<bar>y - x\<bar> \<le> x / 2 ^ 53" .
  have "y \<le> x + x / 2 ^ 53" using bound by linarith
  also have "\<dots> \<le> 2 * x" using x by simp
  also have "\<dots> < 2 * 2 powi (emax - 1)" using hi by simp
  also have "\<dots> = 2 powi emax" by (simp add: power_int_diff)
  finally have fin: "y < 2 powi emax" .
  have "to_double neg x = Fin (if neg then - y else y)"
    by (rule to_double_unfold [OF x e _ ypos fin]) (simp add: y_def M_def z_def)
  with ypos bound show ?thesis by blast
qed

lemma to_double_exact:
  assumes x: "x = of_int M * 2 powi E" and M: "0 < M" "M < 2 ^ 53"
    and E: "emin \<le> E" and fin: "x < 2 powi emax"
  shows "to_double neg x = Fin (if neg then - x else x)"
proof -
  have pE: "(0::rat) < 2 powi E" by simp
  have xpos: "0 < x" unfolding x using M(1) pE by simp
  let ?k = "flog2 x"
  have kb: "2 powi ?k \<le> x" using flog2_bounds(1) [OF xpos] .
  have "(of_int M :: rat) < of_int (2 ^ 53)" using M(2) by (simp only: of_int_less_iff)
  then have "x < 2 ^ 53 * 2 powi E" unfolding x using pE by simp
  also have "\<dots> = 2 powi (E + 53)" by (simp add: power_int_add)
  finally have "x < 2 powi (E + 53)" .
  from pow2_exp_less [OF kb this] have k: "?k - 52 \<le> E" by simp
  define e where "e = max (?k - 52) emin"
  have eE: "e \<le> E" using k E by (simp add: e_def)
  have split: "(2::rat) powi E = 2 ^ nat (E - e) * 2 powi e"
  proof -
    have "(2::rat) powi E = 2 powi (E - e) * 2 powi e" by (simp add: power_int_diff)
    also have "(2::rat) powi (E - e) = 2 ^ nat (E - e)" using eE by (simp add: power_int_nonneg_exp)
    finally show ?thesis .
  qed
  have "x / 2 powi e = of_int M * 2 ^ nat (E - e)" unfolding x split by simp
  also have "\<dots> = of_int (M * 2 ^ nat (E - e))" by simp
  finally have z: "x / 2 powi e = of_int (M * 2 ^ nat (E - e))" .
  have y: "x = of_int (round_even (x / 2 powi e)) * 2 powi e"
    unfolding z round_even_of_int by (simp add: x split)
  show ?thesis
    by (rule to_double_unfold [OF xpos e_def y xpos fin])
qed

lemma to_double_overflow:
  assumes "2 powi emax \<le> x"
  shows "to_double neg x = signed_inf neg"
proof -
  have x: "0 < x" using assms by (rule pow2_le_pos)
  let ?k = "flog2 x"
  have kb: "2 powi ?k \<le> x" "x < 2 powi (?k + 1)" using flog2_bounds [OF x] by simp_all
  from pow2_exp_less [OF assms kb(2)] have k: "emax \<le> ?k" by simp
  define e where "e = ?k - 52"
  have e: "max (?k - 52) emin = e" using k by (simp add: e_def emax_def emin_def)
  define z where "z = x / 2 powi e"
  define M where "M = round_even z"
  have pe: "(0::rat) < 2 powi e" by simp
  have k52: "(2::rat) powi ?k = 2 powi e * 2 ^ 52"
    by (simp add: e_def power_int_diff)
  have zlo: "2 ^ 52 \<le> z"
    using kb(1) pe unfolding z_def k52 by (simp add: pos_le_divide_eq mult.commute)
  have err: "\<bar>of_int M - z\<bar> \<le> 1 / 2" unfolding M_def by (rule round_even_error)
  have "(of_int M :: rat) \<ge> z - 1 / 2" using err by linarith
  with zlo have "(of_int M :: rat) > 2 ^ 52 - 1" by linarith
  then have "(of_int M :: rat) > of_int (2 ^ 52 - 1)" by simp
  then have "M > 2 ^ 52 - 1" by (simp only: of_int_less_iff)
  then have "2 ^ 52 \<le> M" by simp
  then have "(of_int (2 ^ 52) :: rat) \<le> of_int M" by (simp only: of_int_le_iff)
  then have "(2::rat) ^ 52 * 2 powi e \<le> of_int M * 2 powi e" using pe by simp
  then have "(2::rat) powi ?k \<le> of_int M * 2 powi e" unfolding k52 by (simp add: mult.commute)
  moreover have "(2::rat) powi emax \<le> 2 powi ?k" using k by (simp add: power_int_increasing)
  ultimately have big: "(2::rat) powi emax \<le> of_int M * 2 powi e" by simp
  then have "0 < of_int M * (2::rat) powi e" by (rule pow2_le_pos)
  moreover have "a \<noteq> 0" if "0 < a" for a :: rat using that by simp
  ultimately have "of_int M * (2::rat) powi e \<noteq> 0" by blast
  then show ?thesis
    using x big unfolding to_double_def e Let_def M_def z_def by simp
qed

lemma to_double_zero [simp]: "to_double neg 0 = signed_zero neg"
  by (simp add: to_double_def)

lemma pow2_less_emax:
  assumes "(x::rat) < 2 powi k" "k \<le> emax"
  shows "x < 2 powi emax"
proof -
  have "(2::rat) powi k \<le> 2 powi emax" using assms(2) by (simp add: power_int_increasing)
  with assms(1) show ?thesis by linarith
qed

lemma to_double_int:
  assumes "0 < M" "M < 2 ^ 53"
  shows "to_double neg (of_int M) = Fin (if neg then - of_int M else of_int M)"
proof -
  have "(of_int M :: rat) < of_int (2 ^ 53)" using assms(2) by (simp only: of_int_less_iff)
  then have "(of_int M :: rat) < 2 powi 53" by simp
  then have fin: "(of_int M :: rat) < 2 powi emax"
    by (rule pow2_less_emax) (simp add: emax_def)
  have x: "(of_int M :: rat) = of_int M * 2 powi 0" by simp
  show ?thesis
    by (rule to_double_exact [OF x assms _ fin]) (simp add: emin_def)
qed

lemma to_double_numeral [simp]:
  "(numeral k :: int) < 2 ^ 53 \<Longrightarrow>
     to_double neg (numeral k) = Fin (if neg then - numeral k else numeral k)"
  using to_double_int [of "numeral k" neg] by simp

lemma to_double_one [simp]: "to_double neg 1 = Fin (if neg then - 1 else 1)"
  using to_double_int [of 1 neg] by simp

lemma to_double_dyadic:
  assumes "0 < M" "M < 2 ^ 53" "j \<le> 1074"
  shows "to_double neg (of_int M / 2 ^ j) = Fin (if neg then - (of_int M / 2 ^ j) else of_int M / 2 ^ j)"
proof -
  have x: "(of_int M / 2 ^ j :: rat) = of_int M * 2 powi (- int j)"
    by (simp add: power_int_minus field_simps)
  have "(of_int M :: rat) < of_int (2 ^ 53)" using assms(2) by (simp only: of_int_less_iff)
  moreover have "(of_int M / 2 ^ j :: rat) \<le> of_int M"
    using assms(1) by (simp add: divide_le_eq_1_pos pos_divide_le_eq mult_le_cancel_left1)
  ultimately have "(of_int M / 2 ^ j :: rat) < 2 powi 53" by simp
  then have fin: "(of_int M / 2 ^ j :: rat) < 2 powi emax"
    by (rule pow2_less_emax) (simp add: emax_def)
  show ?thesis
    by (rule to_double_exact [OF x assms(1,2) _ fin]) (use assms(3) in \<open>simp add: emin_def\<close>)
qed

lemma num_mul_Fin:
  "num_mul (Fin a) (Fin b) = to_double ((a < 0) \<noteq> (b < 0)) (\<bar>a\<bar> * \<bar>b\<bar>)"
  by (simp add: num_mul_def is_finite_def is_neg_def magnitude_def)

lemma num_div_Fin:
  "b \<noteq> 0 \<Longrightarrow> num_div (Fin a) (Fin b) = to_double ((a < 0) \<noteq> (b < 0)) (\<bar>a\<bar> / \<bar>b\<bar>)"
  by (simp add: num_div_def is_finite_def is_neg_def magnitude_def is_zero_def)

lemmas num_defs = num_mul_Fin num_div_Fin signed_zero_def signed_inf_def

lemma num_NaN [simp]:
  "num_mul NaN b = NaN" "num_mul a NaN = NaN" "num_div NaN b = NaN" "num_div a NaN = NaN"
  by (simp_all add: num_mul_def num_div_def)

subsection \<open>Merging\<close>

lemma merge_fold_lookup:
  assumes "\<forall>key \<in> fst ` set xs. has_key d key"
  shows "map_of (foldl (\<lambda>st (key, val).
              if has_key d key \<and> \<not> has_key st key
              then AList.update key (obj_get d key) st else st) st xs) k =
         (case map_of st k of Some v \<Rightarrow> Some v
          | None \<Rightarrow> if k \<in> fst ` set xs then map_of d k else None)"
  using assms
proof (induction xs arbitrary: st)
  case Nil
  then show ?case by (simp split: option.splits)
next
  case (Cons p xs)
  obtain key val where p: "p = (key, val)" by (cases p)
  from Cons.prems p have hk: "has_key d key" and rest: "\<forall>key \<in> fst ` set xs. has_key d key"
    by auto
  from hk obtain v where v: "map_of d key = Some v"
    by (auto simp: has_key_def)
  show ?case
    using Cons.IH [OF rest] p v
    by (auto simp: has_key_def obj_get_def update_conv' split: option.splits)
qed

lemma map_of_merge:
  "map_of (merge d s) k = (case map_of s k of Some v \<Rightarrow> Some v | None \<Rightarrow> map_of d k)"
proof -
  have keys: "\<forall>key \<in> fst ` set d. has_key d key"
    unfolding has_key_def by (simp add: map_of_eq_None_iff)
  have eq: "map_of (merge d s) k =
      (case map_of s k of Some v \<Rightarrow> Some v
       | None \<Rightarrow> if k \<in> fst ` set d then map_of d k else None)"
    unfolding merge_def by (rule merge_fold_lookup [OF keys])
  have "map_of d k = None" if "k \<notin> fst ` set d"
    using that by (simp add: map_of_eq_None_iff)
  then have "(if k \<in> fst ` set d then map_of d k else None) = map_of d k"
    by (cases "k \<in> fst ` set d") simp_all
  then show ?thesis by (simp only: eq)
qed

lemma obj_get_merge:
  "obj_get (merge d s) k = (if has_key s k then obj_get s k else obj_get d k)"
  by (simp add: obj_get_def has_key_def map_of_merge split: option.splits)

lemma has_key_merge: "has_key (merge d s) k = (has_key s k \<or> has_key d k)"
  by (simp add: has_key_def map_of_merge split: option.splits)

subsection \<open>Literals and the pixel pattern\<close>

lemma takeWhile_run:
  "\<forall>c \<in> set xs. P c \<Longrightarrow> ys = [] \<or> \<not> P (hd ys) \<Longrightarrow> takeWhile P (xs @ ys) = xs"
  by (cases ys) (simp_all add: takeWhile_append2)

lemma dropWhile_run:
  "\<forall>c \<in> set xs. P c \<Longrightarrow> ys = [] \<or> \<not> P (hd ys) \<Longrightarrow> dropWhile P (xs @ ys) = ys"
  by (cases ys) (simp_all add: dropWhile_append2)

lemma is_digit_simps [simp]:
  "\<not> is_digit CHR ''-''" "\<not> is_digit CHR ''+''" "\<not> is_digit CHR ''.''"
  "\<not> is_digit CHR ''e''" "\<not> is_digit CHR ''E''" "\<not> is_digit CHR ''I''"
  by (simp_all add: is_digit_def digit_of_def)

lemma digit_not_special:
  "is_digit c \<Longrightarrow> c \<noteq> CHR ''-'' \<and> c \<noteq> CHR ''+'' \<and> c \<noteq> CHR ''.'' \<and> c \<noteq> CHR ''I'' \<and> \<not> is_ws c \<and> \<not> is_p c \<and> \<not> is_x c"
  by (auto simp: is_digit_def digit_of_def is_ws_def is_p_def is_x_def split: if_splits)

lemma parse_exponent_stops: "stops r \<Longrightarrow> parse_exponent r = (0, r)"
  by (auto simp: stops_def parse_exponent_def split: list.splits)

lemma parse_decimal_body:
  assumes s1: "s1 \<noteq> []" "hd s1 \<noteq> CHR ''I''" "hd s1 \<noteq> CHR ''-''" "hd s1 \<noteq> CHR ''+''"
    and d1: "takeWhile is_digit s1 = d1" and s2: "dropWhile is_digit s1 = s2"
    and d2: "(case s2 of [] \<Rightarrow> ([], s2)
              | c # t \<Rightarrow> if c = CHR ''.'' then (takeWhile is_digit t, dropWhile is_digit t)
                         else ([], s2)) = (d2, s3)"
    and ne: "d1 \<noteq> [] \<or> d2 \<noteq> []"
    and ex: "parse_exponent s3 = (ex, s4)"
  shows "parse_decimal ((if neg then ''-'' else []) @ s1) =
         Some (to_double neg (of_nat (radix_val 10 (d1 @ d2)) / 10 ^ length d2 * 10 powi ex), s4)"
proof -
  obtain c cs where c: "s1 = c # cs" using s1(1) by (cases s1) auto
  have inf: "take 8 s1 \<noteq> ''Infinity''" using s1(2) c by auto
  have sign: "(case (if neg then ''-'' else []) @ s1 of
                 [] \<Rightarrow> (False, (if neg then ''-'' else []) @ s1)
               | c # t \<Rightarrow> if c = CHR ''-'' then (True, t)
                          else if c = CHR ''+'' then (False, t)
                          else (False, (if neg then ''-'' else []) @ s1)) = (neg, s1)"
    using s1 c by (cases neg) auto
  show ?thesis
    unfolding parse_decimal_def sign
    using inf ne by (simp add: d1 s2 d2 ex)
qed

lemma parse_literal:
  assumes d1: "\<forall>c \<in> set ds1. is_digit c" and d2: "\<forall>c \<in> set ds2. is_digit c"
    and ne: "ds2 \<noteq> []" and st: "stops r"
  shows "parse_decimal (px_literal neg ds1 dot ds2 @ r) =
         Some (literal_number neg ds1 dot ds2, r)"
proof -
  have hdr: "r = [] \<or> \<not> is_digit (hd r)"
    using st by (cases r) (simp_all add: stops_def)
  have tw2: "takeWhile is_digit (ds2 @ r) = ds2"
    by (rule takeWhile_run [OF d2 hdr])
  have dw2: "dropWhile is_digit (ds2 @ r) = r"
    by (rule dropWhile_run [OF d2 hdr])
  obtain c cs where ds2: "ds2 = c # cs" using ne by (cases ds2) auto
  have c: "is_digit c" using d2 ds2 by simp
  have ex: "parse_exponent r = (0, r)" by (rule parse_exponent_stops [OF st])
  show ?thesis
  proof (cases dot)
    case True
    let ?s = "ds1 @ ''.'' @ ds2 @ r"
    have tw1: "takeWhile is_digit ?s = ds1"
      by (rule takeWhile_run [OF d1]) simp
    have dw1: "dropWhile is_digit ?s = ''.'' @ ds2 @ r"
      by (rule dropWhile_run [OF d1]) simp
    have hd: "?s \<noteq> []" "hd ?s \<noteq> CHR ''I''" "hd ?s \<noteq> CHR ''-''" "hd ?s \<noteq> CHR ''+''"
      using d1 by (cases ds1; auto dest: digit_not_special)+
    have frac: "(case ''.'' @ ds2 @ r of [] \<Rightarrow> ([], ''.'' @ ds2 @ r)
              | c # t \<Rightarrow> if c = CHR ''.'' then (takeWhile is_digit t, dropWhile is_digit t)
                         else ([], ''.'' @ ds2 @ r)) = (ds2, r)"
      by (simp add: tw2 dw2)
    have ne': "ds1 \<noteq> [] \<or> ds2 \<noteq> []" using ne by simp
    from parse_decimal_body [OF hd tw1 dw1 frac ne' ex, of neg]
    show ?thesis using True by (simp add: px_literal_def literal_number_def literal_magnitude_def)
  next
    case False
    let ?s = "(ds1 @ ds2) @ r"
    have d12: "\<forall>c \<in> set (ds1 @ ds2). is_digit c" using d1 d2 by auto
    have tw1: "takeWhile is_digit ?s = ds1 @ ds2"
      by (rule takeWhile_run [OF d12 hdr])
    have dw1: "dropWhile is_digit ?s = r"
      by (rule dropWhile_run [OF d12 hdr])
    have hd: "?s \<noteq> []" "hd ?s \<noteq> CHR ''I''" "hd ?s \<noteq> CHR ''-''" "hd ?s \<noteq> CHR ''+''"
      using d1 c ds2 by (cases ds1; auto dest: digit_not_special)+
    have frac: "(case r of [] \<Rightarrow> ([], r)
              | c # t \<Rightarrow> if c = CHR ''.'' then (takeWhile is_digit t, dropWhile is_digit t)
                         else ([], r)) = ([], r)"
      using st by (cases r) (simp_all add: stops_def)
    have ne': "ds1 @ ds2 \<noteq> [] \<or> ([]::string) \<noteq> []" using ne by simp
    from parse_decimal_body [OF hd tw1 dw1 frac ne' ex, of neg]
    show ?thesis using False by (simp add: px_literal_def literal_number_def literal_magnitude_def)
  qed
qed

lemma class_not_ws: "in_class c \<Longrightarrow> \<not> is_ws c \<and> \<not> is_p c"
proof -
  assume "in_class c"
  then consider "c = CHR ''-''" | "is_digit c" | "c = CHR ''.''"
    by (auto simp: in_class_def)
  then show ?thesis
  proof cases
    case 2
    then show ?thesis using digit_not_special by blast
  qed (simp_all add: is_ws_def is_p_def)
qed

lemma p_not_ws: "is_p c \<Longrightarrow> \<not> is_ws c \<and> \<not> in_class c"
proof -
  assume "is_p c"
  then consider "c = CHR ''p''" | "c = CHR ''P''"
    by (auto simp: is_p_def)
  then show ?thesis
    by cases (simp_all add: is_ws_def in_class_def is_digit_def digit_of_def)
qed

lemma ws_not_class: "is_ws c \<Longrightarrow> \<not> in_class c"
  using class_not_ws by blast

lemma literal_class:
  assumes "\<forall>c \<in> set ds1. is_digit c" "\<forall>c \<in> set ds2. is_digit c"
  shows "\<forall>c \<in> set (px_literal neg ds1 dot ds2). in_class c"
  using assms by (auto simp: px_literal_def in_class_def)

lemma literal_nonempty: "ds2 \<noteq> [] \<Longrightarrow> px_literal neg ds1 dot ds2 \<noteq> []"
  by (simp add: px_literal_def)

lemma match_at_pixels:
  assumes w1: "\<forall>c \<in> set ws1. is_ws c" and w2: "\<forall>c \<in> set ws2. is_ws c"
    and g: "\<forall>c \<in> set g. in_class c" "g \<noteq> []"
    and px: "is_p p" "is_x x"
  shows "match_at (ws1 @ g @ ws2 @ p # x # rest) = Some (g, rest)"
proof -
  obtain c cs where gc: "g = c # cs" using g(2) by (cases g) auto
  have c: "in_class c" using g(1) gc by simp
  have a: "dropWhile is_ws (ws1 @ g @ ws2 @ p # x # rest) = g @ ws2 @ p # x # rest"
    by (rule dropWhile_run [OF w1]) (use c gc class_not_ws in auto)
  have hd2: "ws2 @ p # x # rest = [] \<or> \<not> in_class (hd (ws2 @ p # x # rest))"
    using w2 px(1) by (cases ws2) (auto dest: p_not_ws ws_not_class)
  have b: "takeWhile in_class (g @ ws2 @ p # x # rest) = g"
    by (rule takeWhile_run [OF g(1) hd2])
  have b': "dropWhile in_class (g @ ws2 @ p # x # rest) = ws2 @ p # x # rest"
    by (rule dropWhile_run [OF g(1) hd2])
  have d: "dropWhile is_ws (ws2 @ p # x # rest) = p # x # rest"
    by (rule dropWhile_run [OF w2]) (use px(1) p_not_ws in auto)
  show ?thesis
    unfolding match_at_def a Let_def b b' d using g(2) px by simp
qed

lemma parseFloat_literal:
  assumes "\<forall>c \<in> set ds1. is_digit c" "\<forall>c \<in> set ds2. is_digit c" "ds2 \<noteq> []"
  shows "parseFloat (px_literal neg ds1 dot ds2) = literal_number neg ds1 dot ds2"
proof -
  let ?l = "px_literal neg ds1 dot ds2"
  have cl: "\<forall>c \<in> set ?l. in_class c" by (rule literal_class [OF assms(1,2)])
  have ne: "?l \<noteq> []" by (rule literal_nonempty [OF assms(3)])
  have "dropWhile is_ws ?l = ?l"
    using cl ne by (cases ?l) (auto dest: class_not_ws)
  moreover have "parse_decimal (?l @ []) = Some (literal_number neg ds1 dot ds2, [])"
    by (rule parse_literal [OF assms]) (simp add: stops_def)
  ultimately show ?thesis by (simp add: parseFloat_def)
qed

subsection \<open>Objects and body construction\<close>

lemma addBody_None: "addBody ts w None = (Inl TypeError, None, w)"
  by (simp add: addBody_def)

lemma addBody_Some:
  "addBody ts w (Some caller) =
     (case make_shape ts w (converted ts w (merge body_defaults caller)) of
        Inl e \<Rightarrow> (Inl e, Some (merge body_defaults caller), w)
      | Inr sh \<Rightarrow>
          (Inr (length (b2_bodies (b2 w))), Some (merge body_defaults caller),
           w\<lparr>b2 := (b2 w)\<lparr>b2_bodies := b2_bodies (b2 w) @
                    [make_body (converted ts w (merge body_defaults caller)) sh]\<rparr>,
             bodies := bodies w @ [length (b2_bodies (b2 w))]\<rparr>))"
  by (simp add: addBody_def Let_def split: sum.splits)

lemma obj_get_update:
  "obj_get (AList.update k v ob) key = (if key = k then v else obj_get ob key)"
  by (simp add: obj_get_def update_conv')

lemma obj_get_converted:
  "obj_get (converted ts w st) key =
     (if key \<in> distance_keys then parsePixels ts w (obj_get st key)
      else if key = ''shape'' \<and> js_truthy (obj_get st ''vertices'') then Str ''polygon''
      else obj_get st key)"
proof -
  let ?five = "[(''x'', parsePixels ts w (obj_get st ''x'')),
             (''y'', parsePixels ts w (obj_get st ''y'')),
             (''radius'', parsePixels ts w (obj_get st ''radius'')),
             (''width'', parsePixels ts w (obj_get st ''width'')),
             (''height'', parsePixels ts w (obj_get st ''height''))]"
  have hk: "has_key ?five key = (key \<in> distance_keys)"
    by (auto simp: has_key_def distance_keys_def)
  have g5: "key \<in> distance_keys \<Longrightarrow> obj_get ?five key = parsePixels ts w (obj_get st key)"
    by (auto simp: obj_get_def distance_keys_def)
  have lit: "obj_get (merge st ?five) key =
      (if key \<in> distance_keys then parsePixels ts w (obj_get st key) else obj_get st key)"
    using g5 by (simp only: obj_get_merge hk split: if_splits) simp
  have v: "obj_get (merge st ?five) ''vertices'' = obj_get st ''vertices''"
    by (simp only: obj_get_merge) (simp add: has_key_def)
  have sh: "''shape'' \<notin> distance_keys" by (simp add: distance_keys_def)
  show ?thesis
    unfolding converted_def Let_def v
    using sh by (auto simp only: obj_get_update lit split: if_splits)
qed

lemma defaults_get:
  "obj_get body_defaults ''shape'' = Str ''box''"
  "obj_get body_defaults ''static'' = Bool True"
  "obj_get body_defaults ''density'' = Num (Fin 1)"
  "obj_get body_defaults ''friction'' = Num (Fin (1 / 2))"
  "obj_get body_defaults ''restitution'' = Num (js_literal (3 / 10))"
  "obj_get body_defaults ''sensorCallback'' = Undefined"
  "obj_get body_defaults ''x'' = Num (Fin 0)"
  "obj_get body_defaults ''y'' = Num (Fin 0)"
  "obj_get body_defaults ''rotation'' = Num (Fin 0)"
  "obj_get body_defaults ''radius'' = Undefined"
  "obj_get body_defaults ''width'' = Undefined"
  "obj_get body_defaults ''height'' = Undefined"
  "obj_get body_defaults ''vertices'' = Undefined"
  "obj_get body_defaults ''id'' = Undefined"
  by (simp_all add: body_defaults_def obj_get_def)

lemma distance_keys_simps:
  "''x'' \<in> distance_keys" "''y'' \<in> distance_keys" "''radius'' \<in> distance_keys"
  "''width'' \<in> distance_keys" "''height'' \<in> distance_keys"
  "''shape'' \<notin> distance_keys" "''vertices'' \<notin> distance_keys"
  "''static'' \<notin> distance_keys" "''density'' \<notin> distance_keys"
  "''friction'' \<notin> distance_keys" "''restitution'' \<notin> distance_keys"
  "''sensorCallback'' \<notin> distance_keys" "''rotation'' \<notin> distance_keys"
  "''id'' \<notin> distance_keys"
  by (simp_all add: distance_keys_def)

lemma parsePixels_not_string [simp]:
  "parsePixels ts w Undefined = Undefined"
  "parsePixels ts w Null = Null"
  "parsePixels ts w (Bool b) = Bool b"
  "parsePixels ts w (Num n) = Num n"
  "parsePixels ts w (Arr xs) = Arr xs"
  "parsePixels ts w (Obj ps) = Obj ps"
  "parsePixels ts w (Func f) = Func f"
  by (simp_all add: parsePixels_def)

lemma obj_get_simps [simp]:
  "obj_get [] key = Undefined"
  "obj_get ((k, v) # ps) key = (if key = k then v else obj_get ps key)"
  by (simp_all add: obj_get_def)

lemma has_key_simps [simp]:
  "has_key [] key = False"
  "has_key ((k, v) # ps) key = (key = k \<or> has_key ps key)"
  by (auto simp: has_key_def)

lemma world_of_ratio_simps [simp]:
  "b2_bodies (b2 (world_of_ratio r)) = []"
  "bodies (world_of_ratio r) = []"
  "drawRatio (world_of_ratio r) = Num (Fin r)"
  "b2_gravity (b2 (world_of_ratio r)) = Vec2 (Num (Fin 0)) (Num (js_literal (98 / 10)))"
  by (simp_all add: world_of_ratio_def drawRatio_def obj_get_def)

lemmas settings_simps = obj_get_converted obj_get_merge defaults_get distance_keys_simps

lemma addBody_result:
  "addBody ts w arg = (Inl TypeError, None, w) \<or>
   (\<exists>caller e. addBody ts w arg = (Inl e, Some (merge body_defaults caller), w)) \<or>
   (\<exists>caller sh. addBody ts w arg =
        (Inr (length (b2_bodies (b2 w))), Some (merge body_defaults caller),
         w\<lparr>b2 := (b2 w)\<lparr>b2_bodies := b2_bodies (b2 w) @
                    [make_body (converted ts w (merge body_defaults caller)) sh]\<rparr>,
           bodies := bodies w @ [length (b2_bodies (b2 w))]\<rparr>))"
proof (cases arg)
  case None
  then show ?thesis by (simp add: addBody_None)
next
  case (Some caller)
  show ?thesis
    by (cases "make_shape ts w (converted ts w (merge body_defaults caller))")
      (auto simp: Some addBody_Some)
qed

lemma addBody_fail_world: "fst (addBody ts w arg) = Inl e \<Longrightarrow> snd (snd (addBody ts w arg)) = w"
  using addBody_result [of ts w arg] by auto

lemma addBody_ok_bodies:
  "fst (addBody ts w arg) = Inr h \<Longrightarrow> bodies (snd (snd (addBody ts w arg))) = bodies w @ [h]"
  using addBody_result [of ts w arg] by auto

lemma indexed_values: "map snd (indexed xs) = xs"
  by (simp add: indexed_def)

lemma iterBodies_handles: "iterBodies w (\<lambda>key b c. b) context = bodies w"
proof -
  have "(\<lambda>(key, val). val) = (snd :: string \<times> nat \<Rightarrow> nat)" by (simp add: fun_eq_iff)
  then show ?thesis by (simp add: iterBodies_def map_js_def indexed_values)
qed

lemma iterBodies_length: "length (iterBodies w func context) = length (bodies w)"
  by (simp add: iterBodies_def map_js_def indexed_def)

lemma perform_bodies: "bodies (fst (perform ts S C w c)) = bodies w @ snd (perform ts S C w c)"
proof (cases c)
  case (AddBody arg)
  show ?thesis
    using addBody_result [of ts w arg] by (auto simp: AddBody)
next
  case (Gravity g)
  then show ?thesis by (simp add: gravity_def Let_def)
next
  case Step
  then show ?thesis by (simp add: step_def)
next
  case ClearForces
  then show ?thesis by (simp add: clearForces_def)
qed

lemma run_bodies: "bodies (fst (run ts S C w cs)) = bodies w @ snd (run ts S C w cs)"
proof (induction cs arbitrary: w)
  case Nil
  show ?case by simp
next
  case (Cons c cs)
  obtain w1 hs1 where p: "perform ts S C w c = (w1, hs1)" by (cases "perform ts S C w c")
  obtain w2 hs2 where r: "run ts S C w1 cs = (w2, hs2)" by (cases "run ts S C w1 cs")
  from perform_bodies [of ts S C w c] p have "bodies w1 = bodies w @ hs1" by simp
  moreover from Cons.IH [of w1] r have "bodies w2 = bodies w1 @ hs2" by simp
  ultimately show ?case by (simp add: p r)
qed

lemma triangle_fails:
  "fst (addBody numberToString (world_of_ratio 1) (Some [(''shape'', Str ''triangle'')])) =
   Inl TypeError"
proof -
  have "make_shape numberToString (world_of_ratio 1)
      (converted numberToString (world_of_ratio 1)
         (merge body_defaults [(''shape'', Str ''triangle'')])) = Inl TypeError"
    by (simp add: make_shape_def Let_def settings_simps)
  then show ?thesis by (simp add: addBody_Some)
qed

lemma addBody_empty_options:
  "fst (addBody ts w (Some [])) = Inr (length (b2_bodies (b2 w)))"
proof -
  have sh: "make_shape ts w (converted ts w (merge body_defaults [])) = Inr (SetAsBox NaN NaN)"
    by (simp add: make_shape_def settings_simps num_div_Fin)
  show ?thesis by (simp add: addBody_Some sh)
qed

lemma strip_px_run:
  "\<forall>c \<in> set xs. \<not> is_p c \<Longrightarrow> is_p p \<Longrightarrow> is_x x \<Longrightarrow> strip_px (xs @ p # x # rest) = xs @ rest"
proof (induction xs)
  case Nil
  then show ?case by simp
next
  case (Cons c xs)
  then have IH: "strip_px (xs @ p # x # rest) = xs @ rest" by simp
  obtain b s where bs: "xs @ p # x # rest = b # s" by (cases "xs @ p # x # rest") auto
  have "\<not> is_p c" using Cons.prems by simp
  then have "strip_px (c # b # s) = c # strip_px (b # s)" by simp
  with IH bs show ?case by simp
qed

lemma trim_run:
  assumes w1: "\<forall>c \<in> set ws1. is_ws c" and w2: "\<forall>c \<in> set ws2. is_ws c"
    and m: "m \<noteq> []" "\<not> is_ws (hd m)" "\<not> is_ws (last m)"
  shows "rev (dropWhile is_ws (rev (dropWhile is_ws (ws1 @ m @ ws2)))) = m"
proof -
  have a: "dropWhile is_ws (ws1 @ m @ ws2) = m @ ws2"
    by (rule dropWhile_run [OF w1]) (use m in simp)
  have w2': "\<forall>c \<in> set (rev ws2). is_ws c" using w2 by simp
  have b: "dropWhile is_ws (rev ws2 @ rev m) = rev m"
    by (rule dropWhile_run [OF w2']) (use m in \<open>simp add: hd_rev\<close>)
  show ?thesis by (simp only: a rev_append b rev_rev_ident)
qed

lemma parse_radix_none:
  assumes "\<And>a b r. s = a # b # r \<Longrightarrow> in_class b \<or> is_ws b \<or> is_p b"
  shows "parse_radix s = None"
proof (cases s)
  case Nil
  then show ?thesis by (simp add: parse_radix_def)
next
  case (Cons a t)
  show ?thesis
  proof (cases t)
    case Nil
    then show ?thesis using Cons by (simp add: parse_radix_def)
  next
    case (Cons b r)
    with \<open>s = a # t\<close> assms have "in_class b \<or> is_ws b \<or> is_p b" by simp
    then have "b \<noteq> CHR ''x'' \<and> b \<noteq> CHR ''X'' \<and> b \<noteq> CHR ''o'' \<and> b \<noteq> CHR ''O'' \<and>
               b \<noteq> CHR ''b'' \<and> b \<noteq> CHR ''B''"
      by (auto simp: in_class_def is_ws_def is_p_def is_digit_def digit_of_def)
    then show ?thesis using Cons \<open>s = a # t\<close> by (simp add: parse_radix_def)
  qed
qed

lemma second_char:
  assumes "2 \<le> length u" "\<forall>c \<in> set u. Q c" "u @ v = a # b # r"
  shows "Q b"
proof -
  obtain a' b' r' where u: "u = a' # b' # r'"
    using assms(1) by (cases u; cases "tl u") auto
  with assms(3) have "b = b'" by simp
  with assms(2) u show ?thesis by simp
qed

lemma ws_p_stop:
  assumes "is_ws c \<or> is_p c"
  shows "\<not> is_digit c \<and> c \<noteq> CHR ''.'' \<and> c \<noteq> CHR ''e'' \<and> c \<noteq> CHR ''E''"
proof -
  have "\<not> in_class c" using assms ws_not_class p_not_ws by blast
  then have a: "\<not> is_digit c \<and> c \<noteq> CHR ''.''" by (simp add: in_class_def)
  have b: "c \<noteq> CHR ''e'' \<and> c \<noteq> CHR ''E''"
    using assms by (auto simp: is_ws_def is_p_def)
  from a b show ?thesis by simp
qed

lemma literal_ends:
  assumes d2: "\<forall>c \<in> set ds2. is_digit c" and ne: "ds2 \<noteq> []"
  shows "is_digit (last (px_literal neg ds1 dot ds2))"
  using assms by (simp add: px_literal_def)

lemma str_to_number_pixels:
  assumes w1: "\<forall>c \<in> set ws1. is_ws c" and w2: "\<forall>c \<in> set ws2. is_ws c"
    and d1: "\<forall>c \<in> set ds1. is_digit c" and d2: "\<forall>c \<in> set ds2. is_digit c"
    and ne: "ds2 \<noteq> []" and px: "is_p p" "is_x x"
  shows "str_to_number (ws1 @ px_literal neg ds1 dot ds2 @ ws2 @ [p, x]) = NaN"
proof -
  let ?l = "px_literal neg ds1 dot ds2"
  let ?t = "?l @ ws2 @ [p, x]"
  have cl: "\<forall>c \<in> set ?l. in_class c" by (rule literal_class [OF d1 d2])
  have nel: "?l \<noteq> []" by (rule literal_nonempty [OF ne])
  have hd: "\<not> is_ws (hd ?t)" using cl nel by (cases ?l) (auto dest: class_not_ws)
  have lst: "\<not> is_ws (last ?t)" using px(2) by (auto simp: is_x_def is_ws_def)
  have trim: "rev (dropWhile is_ws (rev (dropWhile is_ws (ws1 @ ?t @ [])))) = ?t"
    by (rule trim_run [OF w1 _ _ hd lst]) simp_all
  have Q: "\<forall>c \<in> set (?l @ ws2 @ [p]). in_class c \<or> is_ws c \<or> is_p c"
    using cl w2 px(1) by auto
  have len: "2 \<le> length (?l @ ws2 @ [p])" using nel by (cases ?l) auto
  have rad: "parse_radix ?t = None"
  proof (rule parse_radix_none)
    fix a b r assume "?t = a # b # r"
    then have "(?l @ ws2 @ [p]) @ [x] = a # b # r" by simp
    from second_char [OF len Q this] show "in_class b \<or> is_ws b \<or> is_p b" .
  qed
  have st: "stops (ws2 @ [p, x])"
    using w2 px(1) ws_p_stop by (cases ws2) (simp_all add: stops_def)
  have dec: "parse_decimal ?t = Some (literal_number neg ds1 dot ds2, ws2 @ [p, x])"
    by (rule parse_literal [OF d1 d2 ne st])
  have "?t \<noteq> []" by simp
  moreover have "ws2 @ [p, x] \<noteq> []" by simp
  ultimately show ?thesis
    using trim rad dec
    by (simp add: str_to_number_def Let_def split: list.splits)
qed

lemma str_to_number_literal:
  assumes w1: "\<forall>c \<in> set ws1. is_ws c" and w2: "\<forall>c \<in> set ws2. is_ws c"
    and d1: "\<forall>c \<in> set ds1. is_digit c" and d2: "\<forall>c \<in> set ds2. is_digit c"
    and ne: "ds2 \<noteq> []"
  shows "str_to_number (ws1 @ px_literal neg ds1 dot ds2 @ ws2) =
         literal_number neg ds1 dot ds2"
proof -
  let ?l = "px_literal neg ds1 dot ds2"
  have cl: "\<forall>c \<in> set ?l. in_class c" by (rule literal_class [OF d1 d2])
  have nel: "?l \<noteq> []" by (rule literal_nonempty [OF ne])
  have hd: "\<not> is_ws (hd ?l)" using cl nel by (cases ?l) (auto dest: class_not_ws)
  have lst: "\<not> is_ws (last ?l)"
    using literal_ends [OF d2 ne, of neg ds1 dot] digit_not_special by blast
  have trim: "rev (dropWhile is_ws (rev (dropWhile is_ws (ws1 @ ?l @ ws2)))) = ?l"
    by (rule trim_run [OF w1 w2 nel hd lst])
  have rad: "parse_radix ?l = None"
  proof (rule parse_radix_none)
    fix a b r assume "?l = a # b # r"
    then have "b \<in> set ?l" by simp
    with cl show "in_class b \<or> is_ws b \<or> is_p b" by blast
  qed
  have dec: "parse_decimal (?l @ []) = Some (literal_number neg ds1 dot ds2, [])"
    by (rule parse_literal [OF d1 d2 ne]) (simp add: stops_def)
  show ?thesis
    using trim rad dec nel by (simp add: str_to_number_def Let_def)
qed

lemma parsePixels_unmatched:
  "px_search True [] s = None \<Longrightarrow> parsePixels ts w (Str s) = Num (parseFloat s)"
  by (simp add: parsePixels_def replace_px_def)

lemma map_js_values: "map_js (indexed xs) (\<lambda>i e c. f e) context = map f xs"
proof -
  have "map_js (indexed xs) (\<lambda>i e c. f e) context = map f (map snd (indexed xs))"
    by (simp add: map_js_def case_prod_unfold comp_def)
  then show ?thesis by (simp add: indexed_values)
qed

lemma nat_text_small: "nat_text 0 = ''0''" "nat_text (Suc 0) = ''1''"
  by (simp_all add: nat_text.simps digit_char_def)

lemma abc_unmatched: "px_search True [] ''abc'' = None"
  by (simp add: match_at_def char_defs)

lemma new_world_ratio: "new_world [(''drawRatio'', Num (Fin r))] = Inr (world_of_ratio r)"
  by (simp add: new_world_def world_of_ratio_def world_defaults_def merge_def Let_def)

lemma ten_px: "parsePixels numberToString (world_of_ratio 2) (Str ''10px'') = Num (Fin 5)"
proof -
  have s: "px_search True [] ''10px'' = Some ([], ''10'', [])"
    by (simp add: match_at_def char_defs)
  have g: "parseFloat ''10'' = Fin 10"
    by (simp add: parse_defs char_defs)
  have t: "parseFloat (numberToString (Fin 5)) = Fin 5"
    by code_simp
  have q: "num_div (num_mul (Fin 10) (Fin 1)) (Fin 2) = Fin 5"
    by (simp add: num_mul_Fin num_div_Fin)
  have r: "replace_px fn ''10px'' = fn ''10''" for fn
    unfolding replace_px_def s by simp
  show ?thesis
    by (simp add: parsePixels_def r g q t)
qed

subsection \<open>Rounded quotients and products\<close>

text \<open>
  Facts about the three roundings of a pixel string that is converted to units and back:
  at the literal, at the division by the draw ratio, at the multiplication by it.
\<close>

lemma round_even_nonneg: "0 \<le> z \<Longrightarrow> 0 \<le> round_even z"
  by (auto simp: round_even_def Let_def)

lemma to_double_cases:
  assumes "0 \<le> x"
  shows "to_double neg x = signed_zero neg \<or> to_double neg x = signed_inf neg \<or>
         (\<exists>M E. 0 < M \<and> M < 2 ^ 53 \<and> emin \<le> E \<and> of_int M * (2::rat) powi E < 2 powi emax \<and>
            to_double neg x =
              Fin (if neg then - (of_int M * 2 powi E) else of_int M * 2 powi E))"
proof (cases "x = 0")
  case True
  then show ?thesis by simp
next
  case False
  with assms have x: "0 < x" by simp
  let ?k = "flog2 x"
  have kb: "2 powi ?k \<le> x" "x < 2 powi (?k + 1)" using flog2_bounds [OF x] by simp_all
  define e where "e = max (?k - 52) emin"
  define z where "z = x / 2 powi e"
  define M where "M = round_even z"
  define y where "y = of_int M * (2::rat) powi e"
  have pe: "(0::rat) < 2 powi e" by simp
  have z0: "0 \<le> z" using x pe by (simp add: z_def)
  have M0: "0 \<le> M" unfolding M_def by (rule round_even_nonneg [OF z0])
  have td: "to_double neg x =
      (if y = 0 then signed_zero neg else if 2 powi emax \<le> y then signed_inf neg
       else Fin (if neg then - y else y))"
    unfolding to_double_def Let_def y_def M_def z_def e_def using False by simp
  show ?thesis
  proof (cases "y = 0 \<or> 2 powi emax \<le> y")
    case True
    then show ?thesis using td by auto
  next
    case False
    then have y0: "y \<noteq> 0" and yfin: "y < 2 powi emax" by auto
    have val: "to_double neg x = Fin (if neg then - y else y)" using td False by auto
    have Mpos: "0 < M" using y0 M0 by (cases "M = 0") (simp_all add: y_def)
    have "(2::rat) powi (?k + 1) \<le> 2 powi (e + 53)"
      by (rule power_int_increasing) (simp_all add: e_def)
    with kb(2) have "x < 2 powi (e + 53)" by linarith
    also have "\<dots> = 2 ^ 53 * 2 powi e" by (simp add: power_int_add)
    finally have "z < 2 ^ 53" using pe by (simp add: z_def pos_divide_less_eq)
    moreover have "\<bar>of_int M - z\<bar> \<le> 1 / 2" unfolding M_def by (rule round_even_error)
    ultimately have "(of_int M :: rat) < 2 ^ 53 + 1" by linarith
    then have "(of_int M :: rat) < of_int (2 ^ 53 + 1)" by simp
    then have "M < 2 ^ 53 + 1" by (simp only: of_int_less_iff)
    then have Mle: "M \<le> 2 ^ 53" by simp
    have ee: "emin \<le> e" by (simp add: e_def)
    show ?thesis
    proof (cases "M = 2 ^ 53")
      case False
      with Mle have "M < 2 ^ 53" by simp
      with Mpos ee yfin val show ?thesis unfolding y_def by blast
    next
      case True
      have "y = of_int (2 ^ 52) * 2 powi (e + 1)"
        by (simp add: y_def True power_int_add)
      moreover have "emin \<le> e + 1" using ee by simp
      moreover have "(0::int) < 2 ^ 52" "(2::int) ^ 52 < 2 ^ 53" by simp_all
      ultimately show ?thesis using yfin val by blast
    qed
  qed
qed

lemma num_mul_one:
  assumes "0 \<le> x"
  shows "num_mul (to_double neg x) (Fin 1) = to_double neg x"
proof -
  consider (z) "to_double neg x = signed_zero neg" | (i) "to_double neg x = signed_inf neg"
    | (f) M E where "0 < M" "M < 2 ^ 53" "emin \<le> E" "of_int M * (2::rat) powi E < 2 powi emax"
        "to_double neg x = Fin (if neg then - (of_int M * 2 powi E) else of_int M * 2 powi E)"
    using to_double_cases [OF assms, of neg] by blast
  then show ?thesis
  proof cases
    case z
    then show ?thesis
      by (simp add: signed_zero_def num_mul_def is_finite_def is_neg_def magnitude_def)
  next
    case i
    then show ?thesis
      by (simp add: signed_inf_def num_mul_def is_finite_def is_neg_def is_zero_def)
  next
    case f
    let ?y = "of_int M * (2::rat) powi E"
    have ypos: "0 < ?y" using f(1) by simp
    have "to_double neg ?y = Fin (if neg then - ?y else ?y)"
      by (rule to_double_exact [OF refl f(1,2,3,4)])
    then show ?thesis using ypos f(5) by (cases neg) (simp_all add: num_mul_Fin)
  qed
qed

lemma pow2_double: "(2::rat) powi (k + 1) = 2 * 2 powi k"
  by (simp add: power_int_add)

lemma normal_value:
  assumes "2 powi (emin + 52) \<le> x" "x < 2 powi (emax - 1)"
  obtains y where "to_double neg x = Fin (if neg then - y else y)" "0 < y"
    "\<bar>y - x\<bar> \<le> x / 2 ^ 53"
  using to_double_normal [OF assms, of neg] by blast

lemma round_trip_bound:
  assumes m: "2 powi (emin + 53) \<le> m" "m < 2 powi (emax - 2)"
    and r: "0 < r"
    and t: "2 powi (emin + 53) \<le> m / r" "m / r < 2 powi (emax - 2)"
  shows "\<exists>q v. num_div (to_double neg m) (Fin r) = Fin q \<and> q \<noteq> 0 \<and>
           \<bar>q - (if neg then - (m / r) else m / r)\<bar> \<le> m / r / 2 ^ 51 \<and>
           num_mul (Fin q) (Fin r) = Fin v \<and>
           \<bar>v - (if neg then - m else m)\<bar> \<le> m / 2 ^ 51"
proof -
  define A :: rat where "A = 2 powi (emin + 52)"
  define B :: rat where "B = 2 powi (emax - 1)"
  have A: "0 < A" by (simp add: A_def)
  have lo: "(2::rat) powi (emin + 53) = 2 * A"
    using pow2_double [of "emin + 52"] by (simp add: A_def add.commute)
  have hi: "B = 2 * 2 powi (emax - 2)"
    using pow2_double [of "emax - 2"] by (simp add: B_def)
  have mpos: "0 < m" using m(1) by (rule pow2_le_pos)
  have u53: "(2::rat) ^ 53 = 9007199254740992" by simp
  have u51: "(2::rat) ^ 51 = 2251799813685248" by simp
  have m1: "A \<le> m" using m(1) A unfolding lo by linarith
  have m2: "m < B" using m(2) mpos unfolding hi by linarith
  obtain n0 where n0: "to_double neg m = Fin (if neg then - n0 else n0)" "0 < n0"
    "\<bar>n0 - m\<bar> \<le> m / 2 ^ 53"
    using normal_value [OF m1 [unfolded A_def] m2 [unfolded B_def]] by blast
  define s where "s = n0 / r"
  define tt where "tt = m / r"
  have tpos: "0 < tt" using mpos r by (simp add: tt_def)
  have "s - tt = (n0 - m) / r" by (simp add: s_def tt_def diff_divide_distrib)
  then have "\<bar>s - tt\<bar> = \<bar>n0 - m\<bar> / r" using r by (simp add: abs_divide)
  also have "\<dots> \<le> (m / 2 ^ 53) / r"
    by (rule divide_right_mono [OF n0(3)]) (use r in simp)
  also have "\<dots> = tt / 2 ^ 53" by (simp add: tt_def)
  finally have st: "\<bar>s - tt\<bar> \<le> tt / 2 ^ 53" .
  have t1: "2 * A \<le> tt" using t(1) unfolding lo tt_def .
  have t2: "2 * tt < B" using t(2) unfolding hi tt_def by linarith
  have s1: "A \<le> s" using st [unfolded u53] t1 A tpos by linarith
  have s2: "s < B" using st [unfolded u53] t2 tpos by linarith
  obtain q0 where q0: "to_double neg s = Fin (if neg then - q0 else q0)" "0 < q0"
    "\<bar>q0 - s\<bar> \<le> s / 2 ^ 53"
    using normal_value [OF s1 [unfolded A_def] s2 [unfolded B_def]] by blast
  have dv: "num_div (to_double neg m) (Fin r) = Fin (if neg then - q0 else q0)"
    using n0(1,2) q0(1) r by (cases neg) (simp_all add: num_div_Fin s_def [symmetric])
  define a where "a = q0 * r"
  have "a - n0 = (q0 - s) * r" using r by (simp add: a_def s_def algebra_simps)
  then have "\<bar>a - n0\<bar> = \<bar>q0 - s\<bar> * r" using r by (simp add: abs_mult)
  also have "\<dots> \<le> (s / 2 ^ 53) * r"
    by (rule mult_right_mono [OF q0(3)]) (use r in simp)
  also have "\<dots> = n0 / 2 ^ 53" using r by (simp add: s_def)
  finally have an: "\<bar>a - n0\<bar> \<le> n0 / 2 ^ 53" .
  have m1': "2 * A \<le> m" using m(1) unfolding lo .
  have m2': "2 * m < B" using m(2) unfolding hi by linarith
  have a1: "A \<le> a" using an [unfolded u53] n0(3) [unfolded u53] m1' A mpos by linarith
  have a2: "a < B" using an [unfolded u53] n0(3) [unfolded u53] m2' mpos by linarith
  obtain v0 where v0: "to_double neg a = Fin (if neg then - v0 else v0)" "0 < v0"
    "\<bar>v0 - a\<bar> \<le> a / 2 ^ 53"
    using normal_value [OF a1 [unfolded A_def] a2 [unfolded B_def]] by blast
  have ml: "num_mul (Fin (if neg then - q0 else q0)) (Fin r) = Fin (if neg then - v0 else v0)"
    using q0(2) v0(1) r by (cases neg) (simp_all add: num_mul_Fin a_def [symmetric])
  have "\<bar>v0 - m\<bar> \<le> m / 2 ^ 51"
    unfolding u51 using v0(3) [unfolded u53] an [unfolded u53] n0(3) [unfolded u53] mpos
    by linarith
  then have "\<bar>(if neg then - v0 else v0) - (if neg then - m else m)\<bar> \<le> m / 2 ^ 51"
    by (cases neg) (simp_all add: abs_minus_commute)
  moreover have "(if neg then - q0 else q0) \<noteq> 0" using q0(2) by simp
  moreover have "\<bar>q0 - tt\<bar> \<le> tt / 2 ^ 51"
    unfolding u51 using q0(3) [unfolded u53] st [unfolded u53] tpos by linarith
  then have "\<bar>(if neg then - q0 else q0) - (if neg then - (m / r) else m / r)\<bar> \<le>
      m / r / 2 ^ 51"
    unfolding tt_def by (cases neg) (simp_all add: abs_minus_commute)
  ultimately show ?thesis using dv ml by blast
qed

lemma literal_magnitude_nonneg: "0 \<le> literal_magnitude ds1 dot ds2"
  by (simp add: literal_magnitude_def)

lemma abs_literal_value: "\<bar>literal_value neg ds1 dot ds2\<bar> = literal_magnitude ds1 dot ds2"
  using literal_magnitude_nonneg [of ds1 dot ds2] by (simp add: literal_value_def)

lemma to_double_eval:
  assumes k: "2 powi k \<le> x" "x < 2 powi (k + 1)" and n: "emin + 52 \<le> k" "k + 1 < emax"
    and M: "round_even (x / 2 powi (k - 52)) = M" "0 < M" "M \<le> 2 ^ 53"
  shows "to_double neg x =
         Fin (if neg then - (of_int M * 2 powi (k - 52)) else of_int M * 2 powi (k - 52))"
proof -
  have x: "0 < x" using k(1) by (rule pow2_le_pos)
  have f: "flog2 x = k" by (rule flog2_eq [OF k])
  have e: "k - 52 = max (flog2 x - 52) emin" using n(1) by (simp add: f)
  have y: "of_int M * (2::rat) powi (k - 52) = of_int (round_even (x / 2 powi (k - 52))) * 2 powi (k - 52)"
    by (simp add: M(1))
  have pos: "0 < of_int M * (2::rat) powi (k - 52)" using M(2) by simp
  have "(of_int M :: rat) \<le> of_int (2 ^ 53)" using M(3) by (simp only: of_int_le_iff)
  then have "of_int M * (2::rat) powi (k - 52) \<le> 2 ^ 53 * 2 powi (k - 52)" by simp
  also have "\<dots> = 2 powi (k + 1)" by (simp add: power_int_diff power_int_add)
  finally have "of_int M * (2::rat) powi (k - 52) \<le> 2 powi (k + 1)" .
  moreover have "(2::rat) powi (k + 1) < 2 powi emax"
    by (rule power_int_strict_increasing) (use n(2) in simp_all)
  ultimately have fin: "of_int M * (2::rat) powi (k - 52) < 2 powi emax" by linarith
  show ?thesis by (rule to_double_unfold [OF x e y pos fin])
qed

lemma floor_numeral_div:
  "\<lfloor>numeral a / numeral b :: rat\<rfloor> = numeral a div numeral b"
  using floor_divide_of_int_eq [of "numeral a" "numeral b", where ?'a = rat] by simp

lemmas round_eval = emin_def emax_def round_even_def Let_def floor_numeral_div

lemma third: "num_div (Fin 10) (Fin 3) = Fin (7505999378950827 / 2251799813685248)"
proof -
  have "to_double False (10 / 3) =
        Fin (if False then - (of_int 7505999378950827 * 2 powi (1 - 52))
             else of_int 7505999378950827 * 2 powi (1 - 52))"
    by (rule to_double_eval) (simp_all add: round_eval)
  then show ?thesis by (simp add: num_div_Fin)
qed

lemma third_times:
  "num_mul (Fin (7505999378950827 / 2251799813685248)) (Fin 3) = Fin 10"
proof -
  have "to_double False (7505999378950827 / 2251799813685248 * 3) =
        Fin (if False then - (of_int 5629499534213120 * 2 powi (3 - 52))
             else of_int 5629499534213120 * 2 powi (3 - 52))"
    by (rule to_double_eval) (simp_all add: round_eval power_int_minus)
  then show ?thesis by (simp add: num_mul_Fin power_int_minus)
qed

lemma frac_digits_numeral:
  "frac_digits (numeral k) f =
     (if f = 0 then []
      else digit_char (nat \<lfloor>f * 10\<rfloor>) #
           frac_digits (pred_numeral k) (f * 10 - of_int \<lfloor>f * 10\<rfloor>))"
  by (simp add: numeral_eq_Suc)

lemmas text_eval = numberToString_def Let_def frac_digits_numeral floor_numeral_div
  nat_text.simps digit_char_def

lemma third_text:
  "numberToString (Fin (7505999378950827 / 2251799813685248)) = ''3.33333333333333348''"
  by (simp add: text_eval)

lemma third_reads_back:
  "parseFloat ''3.33333333333333348'' = Fin (7505999378950827 / 2251799813685248)"
proof -
  have "parseFloat ''3.33333333333333348'' = to_double False (333333333333333348 / 10 ^ 17)"
    by (simp add: parse_defs char_defs)
  also have "\<dots> = Fin (if False then - (of_int 7505999378950827 * 2 powi (1 - 52))
             else of_int 7505999378950827 * 2 powi (1 - 52))"
    by (rule to_double_eval) (simp_all add: round_eval)
  finally show ?thesis by simp
qed

lemma pow2_le_one: "k \<le> 0 \<Longrightarrow> (2::rat) powi k \<le> 1"
  using power_int_increasing [of k 0 "2::rat"] by simp

lemma min_double_pos: "0 < min_double"
  by (simp add: min_double_def)

lemma one_px_overflows:
  "num_div (num_mul (Fin 1) (Fin 1)) (Fin min_double) = PInf"
proof -
  have "(2::rat) powi emax \<le> 2 powi (- emin)"
    by (rule power_int_increasing) (simp_all add: emin_def emax_def)
  also have "\<dots> = 1 / min_double" by (simp add: min_double_def power_int_minus field_simps)
  finally have "to_double False (1 / min_double) = signed_inf False"
    by (rule to_double_overflow)
  then show ?thesis
    using min_double_pos by (simp add: num_mul_Fin num_div_Fin signed_inf_def)
qed

lemma infinity_reads_back: "parseFloat (numberToString PInf) = PInf"
  by (simp add: numberToString_def parse_defs char_defs signed_inf_def)

lemma infinity_times: "0 < r \<Longrightarrow> num_mul PInf (Fin r) = PInf"
  by (simp add: num_mul_def is_finite_def is_zero_def is_neg_def signed_inf_def)

lemma one_px: "replace_px fn ''1px'' = fn ''1''"
proof -
  have s: "px_search True [] ''1px'' = Some ([], ''1'', [])"
    by (simp add: match_at_def char_defs)
  show ?thesis unfolding replace_px_def s by simp
qed

lemma one_reads: "parseFloat ''1'' = Fin 1"
  by (simp add: parse_defs char_defs)

lemma tenth: "js_literal (1 / 10) = Fin (3602879701896397 / 36028797018963968)"
proof -
  have "to_double False (1 / 10) =
        Fin (if False then - (of_int 7205759403792794 * 2 powi (- 4 - 52))
             else of_int 7205759403792794 * 2 powi (- 4 - 52))"
    by (rule to_double_eval) (simp_all add: round_eval power_int_minus)
  then show ?thesis by (simp add: js_literal_def power_int_minus)
qed

lemma three_tenths:
  "num_mul (Fin (3602879701896397 / 36028797018963968)) (Fin 3) =
   Fin (1351079888211149 / 4503599627370496)"
proof -
  have "to_double False (3602879701896397 / 36028797018963968 * 3) =
        Fin (if False then - (of_int 5404319552844596 * 2 powi (- 2 - 52))
             else of_int 5404319552844596 * 2 powi (- 2 - 52))"
    by (rule to_double_eval) (simp_all add: round_eval power_int_minus)
  then show ?thesis by (simp add: num_mul_Fin power_int_minus)
qed

section \<open>Claims\<close>

subsection \<open>C1: pixel strings convert to units and back\<close>

text \<open>
  C1, as the code has it. Take a string made of optional white space, a decimal literal
  \<open>n\<close> with an optional minus sign (digits, an optional point, at least one final digit),
  optional white space and \<^verbatim>\<open>px\<close> in either case, and a draw ratio \<open>r > 0\<close>. The code
  computes in doubles, prints the quotient and reads the text back. Provided the
  runtime's text of the quotient reads back as the quotient (\<^verbatim>\<open>+0\<close> for \<^verbatim>\<open>-0\<close>),
  \<^verbatim>\<open>parsePixels\<close> returns the double quotient of the double nearest to \<open>n\<close> by \<open>r\<close>. When
  moreover \<open>\<bar>n\<bar>\<close> and \<open>\<bar>n\<bar> / r\<close> lie between \<open>2 powi (- 1021)\<close> and \<open>2 powi 1022\<close>, so that
  nothing overflows or falls below the normal range, that result is a finite \<open>q\<close> within
  \<open>\<bar>n / r\<bar> / 2 ^ 51\<close> of \<open>n / r\<close>, and \<^verbatim>\<open>toPixels\<close> of \<open>q\<close> is a finite \<open>v\<close> within
  \<open>\<bar>n\<bar> / 2 ^ 51\<close> of \<open>n\<close>.
\<close>

theorem C1_pixel_string:
  assumes w1: "\<forall>c \<in> set ws1. is_ws c" and w2: "\<forall>c \<in> set ws2. is_ws c"
    and d1: "\<forall>c \<in> set ds1. is_digit c" and d2: "\<forall>c \<in> set ds2. is_digit c"
    and ne: "ds2 \<noteq> []"
    and px: "is_p p" "is_x x"
    and r: "drawRatio w = Num (Fin r)" "0 < r"
    and ts: "parseFloat (ts (num_div (literal_number neg ds1 dot ds2) (Fin r))) =
             pos_zero (num_div (literal_number neg ds1 dot ds2) (Fin r))"
  shows "parsePixels ts w (Str (ws1 @ px_literal neg ds1 dot ds2 @ ws2 @ [p, x])) =
           Num (pos_zero (num_div (literal_number neg ds1 dot ds2) (Fin r))) \<and>
         (2 powi (emin + 53) \<le> literal_magnitude ds1 dot ds2 \<and>
          literal_magnitude ds1 dot ds2 < 2 powi (emax - 2) \<and>
          2 powi (emin + 53) \<le> literal_magnitude ds1 dot ds2 / r \<and>
          literal_magnitude ds1 dot ds2 / r < 2 powi (emax - 2) \<longrightarrow>
          (\<exists>q v. parsePixels ts w (Str (ws1 @ px_literal neg ds1 dot ds2 @ ws2 @ [p, x])) =
                  Num (Fin q) \<and>
                \<bar>q - literal_value neg ds1 dot ds2 / r\<bar> \<le>
                  \<bar>literal_value neg ds1 dot ds2 / r\<bar> / 2 ^ 51 \<and>
                toPixels ts w (Num (Fin q)) = Fin v \<and>
                \<bar>v - literal_value neg ds1 dot ds2\<bar> \<le>
                  \<bar>literal_value neg ds1 dot ds2\<bar> / 2 ^ 51))"
proof -
  let ?l = "px_literal neg ds1 dot ds2"
  let ?s = "ws1 @ ?l @ ws2 @ [p, x]"
  let ?n = "literal_number neg ds1 dot ds2"
  let ?m = "literal_magnitude ds1 dot ds2"
  let ?Q = "num_div ?n (Fin r)"
  have cl: "\<forall>c \<in> set ?l. in_class c" by (rule literal_class [OF d1 d2])
  have nel: "?l \<noteq> []" by (rule literal_nonempty [OF ne])
  have m: "match_at ?s = Some (?l, [])"
    by (rule match_at_pixels [OF w1 w2 cl nel px])
  have s: "px_search True [] ?s = Some ([], ?l, [])"
    using m by (cases ?s) simp_all
  have rp: "replace_px fn ?s = fn ?l" for fn
    unfolding replace_px_def s by simp
  have pf: "parseFloat ?l = ?n" by (rule parseFloat_literal [OF d1 d2 ne])
  have one: "num_mul ?n (Fin 1) = ?n"
    unfolding literal_number_def by (rule num_mul_one [OF literal_magnitude_nonneg])
  have pp: "parsePixels ts w (Str ?s) = Num (pos_zero ?Q)"
    by (simp add: parsePixels_def rp pf one r(1) ts)
  have rt: "\<exists>q v. parsePixels ts w (Str ?s) = Num (Fin q) \<and>
              \<bar>q - literal_value neg ds1 dot ds2 / r\<bar> \<le>
                \<bar>literal_value neg ds1 dot ds2 / r\<bar> / 2 ^ 51 \<and>
              toPixels ts w (Num (Fin q)) = Fin v \<and>
              \<bar>v - literal_value neg ds1 dot ds2\<bar> \<le> \<bar>literal_value neg ds1 dot ds2\<bar> / 2 ^ 51"
    if range: "2 powi (emin + 53) \<le> ?m" "?m < 2 powi (emax - 2)"
      "2 powi (emin + 53) \<le> ?m / r" "?m / r < 2 powi (emax - 2)"
  proof -
    from round_trip_bound [OF range(1,2) r(2) range(3,4), of neg]
    obtain q v where q: "num_div (to_double neg ?m) (Fin r) = Fin q" "q \<noteq> 0"
        "\<bar>q - (if neg then - (?m / r) else ?m / r)\<bar> \<le> ?m / r / 2 ^ 51"
      and v: "num_mul (Fin q) (Fin r) = Fin v"
        "\<bar>v - (if neg then - ?m else ?m)\<bar> \<le> ?m / 2 ^ 51"
      by blast
    have Q: "?Q = Fin q" using q(1) by (simp add: literal_number_def)
    have "parsePixels ts w (Str ?s) = Num (Fin q)"
      using q(2) by (simp add: pp Q pos_zero_def)
    moreover have "toPixels ts w (Num (Fin q)) = Fin v"
      by (simp add: toPixels_def r(1) v(1))
    moreover have "\<bar>v - literal_value neg ds1 dot ds2\<bar> \<le>
        \<bar>literal_value neg ds1 dot ds2\<bar> / 2 ^ 51"
      using v(2) unfolding abs_literal_value by (simp add: literal_value_def)
    moreover have "\<bar>literal_value neg ds1 dot ds2 / r\<bar> = ?m / r"
      using r(2) by (simp add: abs_literal_value)
    then have "\<bar>q - literal_value neg ds1 dot ds2 / r\<bar> \<le>
        \<bar>literal_value neg ds1 dot ds2 / r\<bar> / 2 ^ 51"
      using q(3) by (cases neg) (simp_all add: literal_value_def)
    ultimately show ?thesis by blast
  qed
  from pp rt show ?thesis by blast
qed

text \<open>
  The string \<^verbatim>\<open>"10px"\<close> at draw ratio 3, with the text of the quotient
  \<^verbatim>\<open>3.33333333333333348\<close>: the result is the double nearest to 10 / 3, and its product
  with 3 is 10.
\<close>

theorem C1_pixel_string_witness:
  "parsePixels numberToString (world_of_ratio 3) (Str ''10px'') =
     Num (Fin (7505999378950827 / 2251799813685248)) \<and>
   toPixels numberToString (world_of_ratio 3) (Num (Fin (7505999378950827 / 2251799813685248))) =
     Fin 10 \<and>
   (\<exists>q v. parsePixels numberToString (world_of_ratio 3) (Str ''10px'') = Num (Fin q) \<and>
      \<bar>q - 10 / 3\<bar> \<le> 10 / 3 / 2 ^ 51 \<and>
      toPixels numberToString (world_of_ratio 3) (Num (Fin q)) = Fin v \<and>
      \<bar>v - 10\<bar> \<le> 10 / 2 ^ 51)"
proof -
  have mg: "literal_magnitude [] False ''10'' = 10"
    by (simp add: literal_magnitude_def radix_val_def digit_val_def hex_digit_of_def digit_of_def)
  have v: "literal_value False [] False ''10'' = 10"
    by (simp add: literal_value_def mg)
  have n: "literal_number False [] False ''10'' = Fin 10"
    by (simp add: literal_number_def mg)
  have l: "[] @ px_literal False [] False ''10'' @ [] @ [CHR ''p'', CHR ''x''] = ''10px''"
    by (simp add: px_literal_def)
  have Q: "num_div (literal_number False [] False ''10'') (Fin 3) =
           Fin (7505999378950827 / 2251799813685248)"
    unfolding n by (rule third)
  have t: "parseFloat (numberToString (num_div (literal_number False [] False ''10'') (Fin 3))) =
           pos_zero (num_div (literal_number False [] False ''10'') (Fin 3))"
    unfolding Q third_text third_reads_back by (simp add: pos_zero_def)
  have lo: "(2::rat) powi (emin + 53) \<le> 1"
    by (rule pow2_le_one) (simp add: emin_def)
  have hi: "(16::rat) \<le> 2 powi (emax - 2)"
    using power_int_increasing [of 4 "emax - 2" "2::rat"] by (simp add: emax_def)
  have range: "2 powi (emin + 53) \<le> literal_magnitude [] False ''10'' \<and>
          literal_magnitude [] False ''10'' < 2 powi (emax - 2) \<and>
          2 powi (emin + 53) \<le> literal_magnitude [] False ''10'' / 3 \<and>
          literal_magnitude [] False ''10'' / 3 < 2 powi (emax - 2)"
    unfolding mg using lo hi by simp
  have main: "parsePixels numberToString (world_of_ratio 3)
          (Str ([] @ px_literal False [] False ''10'' @ [] @ [CHR ''p'', CHR ''x''])) =
           Num (pos_zero (num_div (literal_number False [] False ''10'') (Fin 3))) \<and>
         (2 powi (emin + 53) \<le> literal_magnitude [] False ''10'' \<and>
          literal_magnitude [] False ''10'' < 2 powi (emax - 2) \<and>
          2 powi (emin + 53) \<le> literal_magnitude [] False ''10'' / 3 \<and>
          literal_magnitude [] False ''10'' / 3 < 2 powi (emax - 2) \<longrightarrow>
          (\<exists>q v. parsePixels numberToString (world_of_ratio 3)
                    (Str ([] @ px_literal False [] False ''10'' @ [] @ [CHR ''p'', CHR ''x''])) =
                  Num (Fin q) \<and>
                \<bar>q - literal_value False [] False ''10'' / 3\<bar> \<le>
                  \<bar>literal_value False [] False ''10'' / 3\<bar> / 2 ^ 51 \<and>
                toPixels numberToString (world_of_ratio 3) (Num (Fin q)) = Fin v \<and>
                \<bar>v - literal_value False [] False ''10''\<bar> \<le>
                  \<bar>literal_value False [] False ''10''\<bar> / 2 ^ 51))"
    using t
    by (intro C1_pixel_string [where ?ws1.0 = "[]" and ?ws2.0 = "[]" and ?ds1.0 = "[]"
          and ?ds2.0 = "''10''" and p = "CHR ''p''" and x = "CHR ''x''"
          and w = "world_of_ratio 3" and r = 3 and ts = numberToString
          and neg = False and dot = False])
      (simp_all add: is_digit_def digit_of_def is_p_def is_x_def)
  from main have a: "parsePixels numberToString (world_of_ratio 3) (Str ''10px'') =
      Num (Fin (7505999378950827 / 2251799813685248))"
    unfolding Q l by (simp add: pos_zero_def)
  have b: "toPixels numberToString (world_of_ratio 3)
      (Num (Fin (7505999378950827 / 2251799813685248))) = Fin 10"
    by (simp add: toPixels_def third_times)
  from main range
  have "\<exists>q v. parsePixels numberToString (world_of_ratio 3)
                    (Str ([] @ px_literal False [] False ''10'' @ [] @ [CHR ''p'', CHR ''x''])) =
                  Num (Fin q) \<and>
                \<bar>q - literal_value False [] False ''10'' / 3\<bar> \<le>
                  \<bar>literal_value False [] False ''10'' / 3\<bar> / 2 ^ 51 \<and>
                toPixels numberToString (world_of_ratio 3) (Num (Fin q)) = Fin v \<and>
                \<bar>v - literal_value False [] False ''10''\<bar> \<le>
                  \<bar>literal_value False [] False ''10''\<bar> / 2 ^ 51"
    by blast
  then have c: "\<exists>q v. parsePixels numberToString (world_of_ratio 3) (Str ''10px'') = Num (Fin q) \<and>
      \<bar>q - 10 / 3\<bar> \<le> 10 / 3 / 2 ^ 51 \<and>
      toPixels numberToString (world_of_ratio 3) (Num (Fin q)) = Fin v \<and>
      \<bar>v - 10\<bar> \<le> 10 / 2 ^ 51"
    unfolding l v by simp
  from a b c show ?thesis by blast
qed

text \<open>
  C1 as stated also admits a plus sign. The class \<^verbatim>\<open>[-0-9.]\<close> of the pattern has none, so
  \<^verbatim>\<open>"+5px"\<close> is not replaced and \<^verbatim>\<open>parseFloat\<close> reads 5 from it, unscaled: at draw ratio 2 the
  result is 5, not 5 / 2. And not every draw ratio \<open>r > 0\<close> gives the string back: at the
  least positive double the quotient of \<^verbatim>\<open>"1px"\<close> is infinite, and so is its product with
  the ratio.
\<close>

theorem C1_plus_sign_counterexample:
  "parsePixels numberToString (world_of_ratio 2) (Str ''+5px'') = Num (Fin 5) \<and>
   parsePixels numberToString (world_of_ratio 2) (Str ''+5px'') \<noteq> Num (Fin (5 / 2)) \<and>
   toPixels numberToString (world_of_ratio min_double)
     (parsePixels numberToString (world_of_ratio min_double) (Str ''1px'')) = PInf"
proof -
  have a: "parsePixels numberToString (world_of_ratio 2) (Str ''+5px'') = Num (Fin 5)"
    by (simp add: char_defs parse_defs obj_defs px_defs world_defs)
  have b: "parsePixels numberToString (world_of_ratio min_double) (Str ''1px'') = Num PInf"
    by (simp add: parsePixels_def one_px one_reads one_px_overflows infinity_reads_back)
  have c: "toPixels numberToString (world_of_ratio min_double) (Num PInf) = PInf"
    using min_double_pos by (simp add: toPixels_def infinity_times)
  from a b c show ?thesis by simp
qed

subsection \<open>C2: strings that are not pixel strings\<close>

text \<open>
  C2, as the code has it. \<^verbatim>\<open>addBody\<close> has no check for a not-a-number distance. Let one of
  the five distance-bearing fields hold a string that the pixel pattern does not match,
  with no vertices given and the shape tag (after defaults) \<^verbatim>\<open>box\<close> or \<^verbatim>\<open>circle\<close>. Then the
  call succeeds, the field is converted by \<^verbatim>\<open>parseFloat\<close> alone (a leading numeral
  unscaled, else not-a-number), and the body the engine receives is built from the
  settings that hold that value. A vertex coordinate that is such a string is converted
  the same way, and the callback of the polygon branch does not throw on it.
\<close>

theorem C2_unmatched_string_propagates:
  assumes key: "key \<in> distance_keys"
    and str: "map_of st key = Some (Str s)"
    and nomatch: "px_search True [] s = None"
    and nov: "\<not> js_truthy (obj_get st ''vertices'')"
    and tag: "obj_get (merge body_defaults st) ''shape'' = Str ''box'' \<or>
              obj_get (merge body_defaults st) ''shape'' = Str ''circle''"
  shows "fst (addBody ts w (Some st)) = Inr (length (b2_bodies (b2 w))) \<and>
         obj_get (converted ts w (merge body_defaults st)) key = Num (parseFloat s) \<and>
         b2_bodies (b2 (snd (snd (addBody ts w (Some st))))) ! length (b2_bodies (b2 w)) =
           make_body (converted ts w (merge body_defaults st))
             (if obj_get (merge body_defaults st) ''shape'' = Str ''box''
              then SetAsBox
                     (num_div (js_to_number ts
                        (obj_get (converted ts w (merge body_defaults st)) ''width'')) (Fin 2))
                     (num_div (js_to_number ts
                        (obj_get (converted ts w (merge body_defaults st)) ''height'')) (Fin 2))
              else CircleShape (obj_get (converted ts w (merge body_defaults st)) ''radius'')) \<and>
         vertex ts w (Arr [Str s, v]) =
           Inr (Vec2 (Num (parseFloat s)) (parsePixels ts w v)) \<and>
         vertex ts w (Arr [v, Str s]) =
           Inr (Vec2 (parsePixels ts w v) (Num (parseFloat s)))"
proof -
  let ?m = "merge body_defaults st"
  let ?c = "converted ts w ?m"
  have hk: "has_key st key" and gk: "obj_get st key = Str s"
    using str by (simp_all add: has_key_def obj_get_def)
  have v: "\<not> js_truthy (obj_get ?m ''vertices'')"
    using nov by (simp add: obj_get_merge defaults_get)
  have val: "obj_get ?c key = Num (parseFloat s)"
    using key hk gk by (simp add: obj_get_converted obj_get_merge parsePixels_unmatched [OF nomatch])
  have t: "obj_get ?c ''shape'' = obj_get ?m ''shape''"
    using v by (simp add: obj_get_converted distance_keys_simps)
  have sh: "make_shape ts w ?c =
      Inr (if obj_get ?m ''shape'' = Str ''box''
           then SetAsBox (num_div (js_to_number ts (obj_get ?c ''width'')) (Fin 2))
                         (num_div (js_to_number ts (obj_get ?c ''height'')) (Fin 2))
           else CircleShape (obj_get ?c ''radius''))"
    using tag unfolding make_shape_def Let_def t by auto
  have vx: "vertex ts w (Arr [Str s, v]) =
              Inr (Vec2 (Num (parseFloat s)) (parsePixels ts w v)) \<and>
            vertex ts w (Arr [v, Str s]) =
              Inr (Vec2 (parsePixels ts w v) (Num (parseFloat s)))"
    by (simp add: vertex_def parsePixels_unmatched [OF nomatch])
  show ?thesis
    by (simp add: addBody_Some sh val vx del: obj_get_simps)
qed

text \<open>
  The options \<^verbatim>\<open>{x: "abc", width: 2, height: 4}\<close>.
\<close>

theorem C2_unmatched_string_propagates_witness:
  "fst (addBody numberToString (world_of_ratio 1)
     (Some [(''x'', Str ''abc''), (''width'', Num (Fin 2)), (''height'', Num (Fin 4))])) = Inr 0 \<and>
   obj_get (converted numberToString (world_of_ratio 1)
     (merge body_defaults [(''x'', Str ''abc''), (''width'', Num (Fin 2)), (''height'', Num (Fin 4))]))
     ''x'' = Num NaN"
proof -
  let ?st = "[(''x'', Str ''abc''), (''width'', Num (Fin 2)), (''height'', Num (Fin 4))]"
  have pf: "parseFloat ''abc'' = NaN"
    by (simp add: parse_defs char_defs)
  have k: "''x'' \<in> distance_keys" by (simp add: distance_keys_simps)
  have m: "map_of ?st ''x'' = Some (Str ''abc'')" by simp
  have v: "\<not> js_truthy (obj_get ?st ''vertices'')" by simp
  have t: "obj_get (merge body_defaults ?st) ''shape'' = Str ''box'' \<or>
           obj_get (merge body_defaults ?st) ''shape'' = Str ''circle''"
    by (simp add: obj_get_merge defaults_get)
  from C2_unmatched_string_propagates [OF k m abc_unmatched v t, of numberToString "world_of_ratio 1"]
  have "fst (addBody numberToString (world_of_ratio 1) (Some ?st)) = Inr 0"
    and "obj_get (converted numberToString (world_of_ratio 1) (merge body_defaults ?st)) ''x'' =
         Num (parseFloat ''abc'')"
    by simp_all
  then show ?thesis by (simp only: pf simp_thms)
qed

text \<open>
  C2 as stated asks for an invalid-argument failure. With \<^verbatim>\<open>x: "abc"\<close> the call returns the
  first handle, and the body sits at a not-a-number abscissa.
\<close>

theorem C2_unmatched_string_counterexample:
  "fst (addBody numberToString (world_of_ratio 1)
     (Some [(''x'', Str ''abc''), (''width'', Num (Fin 2)), (''height'', Num (Fin 4))])) = Inr 0 \<and>
   position (bdef (b2_bodies (b2 (snd (snd (addBody numberToString (world_of_ratio 1)
     (Some [(''x'', Str ''abc''), (''width'', Num (Fin 2)), (''height'', Num (Fin 4))]))))) ! 0)) =
     Vec2 (Num NaN) (Num (Fin 0))"
proof -
  let ?w = "world_of_ratio 1"
  let ?st = "[(''x'', Str ''abc''), (''width'', Num (Fin 2)), (''height'', Num (Fin 4))]"
  have pf: "parseFloat ''abc'' = NaN"
    by (simp add: parse_defs char_defs)
  have sh: "make_shape numberToString ?w (converted numberToString ?w (merge body_defaults ?st)) =
      Inr (SetAsBox (Fin 1) (Fin 2))"
    by (simp add: make_shape_def Let_def settings_simps num_div_Fin)
  have x: "obj_get (converted numberToString ?w (merge body_defaults ?st)) ''x'' = Num NaN"
    by (simp add: settings_simps parsePixels_unmatched [OF abc_unmatched] pf)
  have y: "obj_get (converted numberToString ?w (merge body_defaults ?st)) ''y'' = Num (Fin 0)"
    by (simp add: settings_simps)
  show ?thesis
    by (simp add: addBody_Some sh make_body_def x y)
qed

subsection \<open>C3: no options\<close>

text \<open>
  C3, as the code has it. The guard of \<^verbatim>\<open>addBody\<close> counts arguments: a call without
  arguments throws and leaves the world as it is. A call with the empty object passes
  the guard, takes every default, and registers a static box whose half-extents are
  \<^verbatim>\<open>undefined / 2\<close>, not-a-number.
\<close>

theorem C3_no_argument:
  "addBody ts w None = (Inl TypeError, None, w) \<and>
   fst (addBody ts w (Some [])) = Inr (length (b2_bodies (b2 w))) \<and>
   bodies (snd (snd (addBody ts w (Some [])))) = bodies w @ [length (b2_bodies (b2 w))] \<and>
   shapes_of (snd (snd (addBody ts w (Some [])))) (length (b2_bodies (b2 w))) =
     [SetAsBox NaN NaN]"
proof -
  have sh: "make_shape ts w (converted ts w (merge body_defaults [])) = Inr (SetAsBox NaN NaN)"
    by (simp add: make_shape_def settings_simps num_div_Fin)
  show ?thesis
    by (simp add: addBody_None addBody_Some sh shapes_of_def make_body_def)
qed

text \<open>
  Both calls on the world \<^verbatim>\<open>new Box2D.world({})\<close>.
\<close>

theorem C3_no_argument_witness:
  "addBody numberToString (world_of_ratio 1) None = (Inl TypeError, None, world_of_ratio 1) \<and>
   bodies (snd (snd (addBody numberToString (world_of_ratio 1) (Some [])))) = [0] \<and>
   shapes_of (snd (snd (addBody numberToString (world_of_ratio 1) (Some [])))) 0 =
     [SetAsBox NaN NaN]"
  using C3_no_argument [of numberToString "world_of_ratio 1"] by simp

text \<open>
  C3 as stated has \<^verbatim>\<open>addBody({})\<close> fail. It returns the handle 0.
\<close>

theorem C3_empty_options_counterexample:
  "fst (addBody numberToString (world_of_ratio 1) (Some [])) = Inr 0 \<and>
   fst (addBody numberToString (world_of_ratio 1) (Some [])) \<noteq> Inl TypeError"
proof -
  have sh: "make_shape numberToString (world_of_ratio 1)
      (converted numberToString (world_of_ratio 1) (merge body_defaults [])) = Inr (SetAsBox NaN NaN)"
    by (simp add: make_shape_def settings_simps num_div_Fin)
  show ?thesis
    by (simp add: addBody_Some sh)
qed

subsection \<open>C4: the three vertex encodings\<close>

text \<open>
  C4 fails on the code. The comment of \<^verbatim>\<open>addBody\<close> lists three forms for \<^verbatim>\<open>vertices\<close>, but the
  polygon branch reads \<^verbatim>\<open>e[0]\<close> and \<^verbatim>\<open>e[1]\<close> of every element whatever its form. For the
  points (1, 2), (3, 4), (5, 6): the pairs give the three points; the records give three
  vertices with both coordinates \<^verbatim>\<open>undefined\<close>; the flat sequence gives six such vertices.
\<close>

theorem C4_vertex_encodings_differ:
  "shapes_of (snd (snd (addBody numberToString (world_of_ratio 1)
     (Some [(''vertices'', Arr [Arr [Num (Fin 1), Num (Fin 2)], Arr [Num (Fin 3), Num (Fin 4)],
                                Arr [Num (Fin 5), Num (Fin 6)]])])))) 0 =
     [SetAsArray [Vec2 (Num (Fin 1)) (Num (Fin 2)), Vec2 (Num (Fin 3)) (Num (Fin 4)),
                  Vec2 (Num (Fin 5)) (Num (Fin 6))] 3] \<and>
   shapes_of (snd (snd (addBody numberToString (world_of_ratio 1)
     (Some [(''vertices'', Arr [Obj [(''x'', Num (Fin 1)), (''y'', Num (Fin 2))],
                                Obj [(''x'', Num (Fin 3)), (''y'', Num (Fin 4))],
                                Obj [(''x'', Num (Fin 5)), (''y'', Num (Fin 6))]])])))) 0 =
     [SetAsArray [Vec2 Undefined Undefined, Vec2 Undefined Undefined,
                  Vec2 Undefined Undefined] 3] \<and>
   shapes_of (snd (snd (addBody numberToString (world_of_ratio 1)
     (Some [(''vertices'', Arr [Num (Fin 1), Num (Fin 2), Num (Fin 3), Num (Fin 4),
                                Num (Fin 5), Num (Fin 6)])])))) 0 =
     [SetAsArray [Vec2 Undefined Undefined, Vec2 Undefined Undefined,
                  Vec2 Undefined Undefined, Vec2 Undefined Undefined,
                  Vec2 Undefined Undefined, Vec2 Undefined Undefined] 6]"
proof -
  let ?w = "world_of_ratio 1"
  have poly: "make_shape numberToString ?w
      (converted numberToString ?w (merge body_defaults [(''vertices'', Arr xs)])) =
      (case collect (map (vertex numberToString ?w) xs) of
         Inl e \<Rightarrow> Inl e | Inr vec \<Rightarrow> Inr (SetAsArray vec (length vec)))" for xs
    by (simp add: make_shape_def Let_def settings_simps map_js_values)
  show ?thesis
    by (simp add: addBody_Some poly shapes_of_def make_body_def vertex_def nat_text_small)
qed

subsection \<open>C5: explicit undefined\<close>




subsection \<open>C6: a failed call leaves the registry\<close>

text \<open>
  C6. Whenever \<^verbatim>\<open>addBody\<close> throws, the world is the world before the call: the registry
  is unchanged and \<^verbatim>\<open>iterBodies\<close> gives the same results for every visitor.
\<close>

theorem C6_failure_leaves_registry:
  assumes "fst (addBody ts w arg) = Inl e"
  shows "snd (snd (addBody ts w arg)) = w \<and>
         bodies (snd (snd (addBody ts w arg))) = bodies w \<and>
         iterBodies (snd (snd (addBody ts w arg))) func context = iterBodies w func context"
  using addBody_fail_world [OF assms] by simp

text \<open>
  The unrecognised shape tag \<^verbatim>\<open>triangle\<close>.
\<close>

theorem C6_failure_leaves_registry_witness:
  "fst (addBody numberToString (world_of_ratio 1) (Some [(''shape'', Str ''triangle'')])) =
     Inl TypeError \<and>
   bodies (snd (snd (addBody numberToString (world_of_ratio 1)
     (Some [(''shape'', Str ''triangle'')])))) = [] \<and>
   iterBodies (snd (snd (addBody numberToString (world_of_ratio 1)
     (Some [(''shape'', Str ''triangle'')])))) (\<lambda>key b c. b) () = []"
  using C6_failure_leaves_registry [OF triangle_fails, of "\<lambda>key b c. b" "()"] triangle_fails
  by (simp add: iterBodies_handles)

subsection \<open>C7: gravity updates axis by axis\<close>

text \<open>
  C7. After \<^verbatim>\<open>gravity(g)\<close> with an object \<open>g\<close>, the getter returns, on each axis, the
  value \<open>g\<close> gives when it has the axis (and not as \<^verbatim>\<open>undefined\<close> or \<^verbatim>\<open>null\<close>), and the
  value the world had before otherwise.
\<close>

theorem C7_gravity_partial_update:
  "fst (gravity (snd (gravity w (Obj ps))) Undefined) =
     Some \<lparr>vec_x = (if has_key ps ''x'' \<and> \<not> is_nullish (obj_get ps ''x'')
                     then obj_get ps ''x'' else vec_x (b2_gravity (b2 w))),
           vec_y = (if has_key ps ''y'' \<and> \<not> is_nullish (obj_get ps ''y'')
                     then obj_get ps ''y'' else vec_y (b2_gravity (b2 w)))\<rparr>"
  by (auto simp: gravity_def Let_def Vec2_def has_key_def obj_get_def split: option.splits)

text \<open>
  \<^verbatim>\<open>gravity({x: 5})\<close> on the gravity (0, 9.8).
\<close>

theorem C7_gravity_partial_update_witness:
  "fst (gravity (snd (gravity (world_of_ratio 1) (Obj [(''x'', Num (Fin 5))]))) Undefined) =
     Some \<lparr>vec_x = Num (Fin 5), vec_y = Num (js_literal (98 / 10))\<rparr>"
  using C7_gravity_partial_update [of "world_of_ratio 1" "[(''x'', Num (Fin 5))]"]
  by (simp add: Vec2_def)

subsection \<open>C8: the registry is the creation order\<close>

text \<open>
  C8. After a successful \<^verbatim>\<open>addBody\<close> the traversal of \<^verbatim>\<open>iterBodies\<close> is the traversal
  before with the returned body appended: the body is its last element and its length
  has grown by one. Over any run of calls the registry is the registry at the start
  followed by the bodies the run created, in the order of their creation.
\<close>

theorem C8_registry_is_creation_order:
  assumes "fst (addBody ts w arg) = Inr h"
  shows "iterBodies (snd (snd (addBody ts w arg))) (\<lambda>key b c. b) context =
           iterBodies w (\<lambda>key b c. b) context @ [h] \<and>
         last (iterBodies (snd (snd (addBody ts w arg))) (\<lambda>key b c. b) context) = h \<and>
         length (iterBodies (snd (snd (addBody ts w arg))) func context') =
           Suc (length (iterBodies w func context')) \<and>
         bodies (fst (run ts S C w calls)) = bodies w @ snd (run ts S C w calls)"
  using addBody_ok_bodies [OF assms]
  by (simp add: iterBodies_handles iterBodies_length run_bodies)

text \<open>
  The first body of a fresh world, and a run of five calls on it.
\<close>

theorem C8_registry_is_creation_order_witness:
  "iterBodies (snd (snd (addBody numberToString (world_of_ratio 1) (Some []))))
     (\<lambda>key b c. b) () = [0] \<and>
   last (iterBodies (snd (snd (addBody numberToString (world_of_ratio 1) (Some []))))
     (\<lambda>key b c. b) ()) = 0 \<and>
   length (iterBodies (snd (snd (addBody numberToString (world_of_ratio 1) (Some []))))
     (\<lambda>key b c. key) ()) = Suc 0 \<and>
   bodies (fst (run numberToString (\<lambda>e. e) (\<lambda>e. e) (world_of_ratio 1)
      [AddBody (Some []), Gravity Undefined, AddBody None, Step, ClearForces])) =
     snd (run numberToString (\<lambda>e. e) (\<lambda>e. e) (world_of_ratio 1)
      [AddBody (Some []), Gravity Undefined, AddBody None, Step, ClearForces])"
proof -
  have h: "fst (addBody numberToString (world_of_ratio 1) (Some [])) = Inr 0"
    using addBody_empty_options [of numberToString "world_of_ratio 1"] by simp
  show ?thesis
    using C8_registry_is_creation_order [OF h, of "()" "\<lambda>key b c. key" "()" "\<lambda>e. e" "\<lambda>e. e"
        "[AddBody (Some []), Gravity Undefined, AddBody None, Step, ClearForces]"]
    by (simp add: iterBodies_handles iterBodies_length)
qed

subsection \<open>C9: converting to pixels and to meters\<close>

text \<open>
  C9, as the code has it, at a draw ratio \<open>r > 0\<close>. \<^verbatim>\<open>toPixels\<close> multiplies a number by the
  draw ratio in double arithmetic: the result is the product of the operator \<^verbatim>\<open>*\<close>, and
  for a finite \<open>q\<close> with \<open>\<bar>q\<bar> * r\<close> in the normal range it is a finite \<open>v\<close> within
  \<open>\<bar>q * r\<bar> / 2 ^ 53\<close> of \<open>q * r\<close>. \<^verbatim>\<open>toPixels\<close> strips nothing: a pixel string is coerced
  by the multiplication and gives not-a-number. The stripping of \<^verbatim>\<open>px\<close> is in \<^verbatim>\<open>toMeters\<close>,
  which divides the double of the remaining numeral by the draw ratio.
\<close>

theorem C9_conversions:
  assumes w1: "\<forall>c \<in> set ws1. is_ws c" and w2: "\<forall>c \<in> set ws2. is_ws c"
    and d1: "\<forall>c \<in> set ds1. is_digit c" and d2: "\<forall>c \<in> set ds2. is_digit c"
    and ne: "ds2 \<noteq> []" and px: "is_p p" "is_x x"
    and r: "drawRatio w = Num (Fin r)" "0 < r"
  shows "toPixels ts w (Num a) = num_mul a (Fin r) \<and>
         (2 powi (emin + 52) \<le> \<bar>q\<bar> * r \<and> \<bar>q\<bar> * r < 2 powi (emax - 1) \<longrightarrow>
          (\<exists>v. toPixels ts w (Num (Fin q)) = Fin v \<and> \<bar>v - q * r\<bar> \<le> \<bar>q * r\<bar> / 2 ^ 53)) \<and>
         toPixels ts w (Str (ws1 @ px_literal neg ds1 dot ds2 @ ws2 @ [p, x])) = NaN \<and>
         toMeters ts w (Str (ws1 @ px_literal neg ds1 dot ds2 @ ws2 @ [p, x])) =
           num_div (literal_number neg ds1 dot ds2) (Fin r)"
proof -
  let ?l = "px_literal neg ds1 dot ds2"
  have a: "toPixels ts w (Num a) = num_mul a (Fin r)" for a
    by (simp add: toPixels_def r(1))
  have acc: "\<exists>v. toPixels ts w (Num (Fin q)) = Fin v \<and> \<bar>v - q * r\<bar> \<le> \<bar>q * r\<bar> / 2 ^ 53"
    if range: "2 powi (emin + 52) \<le> \<bar>q\<bar> * r" "\<bar>q\<bar> * r < 2 powi (emax - 1)"
  proof -
    from to_double_normal [OF range, of "q < 0"]
    obtain y where y: "to_double (q < 0) (\<bar>q\<bar> * r) = Fin (if q < 0 then - y else y)"
      "0 < y" "\<bar>y - \<bar>q\<bar> * r\<bar> \<le> \<bar>q\<bar> * r / 2 ^ 53"
      by blast
    have m: "num_mul (Fin q) (Fin r) = Fin (if q < 0 then - y else y)"
      using r(2) y(1) by (simp add: num_mul_Fin)
    have ar: "\<bar>q * r\<bar> = \<bar>q\<bar> * r" using r(2) by (simp add: abs_mult)
    have "\<bar>(if q < 0 then - y else y) - q * r\<bar> = \<bar>y - \<bar>q\<bar> * r\<bar>"
      by (cases "q < 0") (simp_all add: abs_if algebra_simps)
    with y(3) have "\<bar>(if q < 0 then - y else y) - q * r\<bar> \<le> \<bar>q * r\<bar> / 2 ^ 53"
      unfolding ar by simp
    with m show ?thesis unfolding a by blast
  qed
  have b: "toPixels ts w (Str (ws1 @ ?l @ ws2 @ [p, x])) = NaN"
    by (simp add: toPixels_def str_to_number_pixels [OF w1 w2 d1 d2 ne px])
  have cl: "\<forall>c \<in> set ?l. in_class c" by (rule literal_class [OF d1 d2])
  have "\<not> is_p c" if "is_ws c \<or> in_class c" for c
    using that class_not_ws p_not_ws by blast
  then have nop: "\<forall>c \<in> set (ws1 @ ?l @ ws2). \<not> is_p c"
    using w1 w2 cl by auto
  have strip: "strip_px ((ws1 @ ?l @ ws2) @ p # x # []) = (ws1 @ ?l @ ws2) @ []"
    by (rule strip_px_run [OF nop px])
  have c: "toMeters ts w (Str (ws1 @ ?l @ ws2 @ [p, x])) =
           num_div (literal_number neg ds1 dot ds2) (Fin r)"
    using strip
    by (simp add: toMeters_def str_to_number_literal [OF w1 w2 d1 d2 ne] r(1))
  from a acc b c show ?thesis by blast
qed

text \<open>
  Draw ratio 3: the number \<^verbatim>\<open>0.1\<close>, whose product is the double \<^verbatim>\<open>0.30000000000000004\<close>
  and not 3 / 10; the number 2; and the string \<^verbatim>\<open>"10px"\<close>.
\<close>

theorem C9_conversions_witness:
  "toPixels numberToString (world_of_ratio 3) (Num (js_literal (1 / 10))) =
     Fin (1351079888211149 / 4503599627370496) \<and>
   (\<exists>v. toPixels numberToString (world_of_ratio 3) (Num (Fin 2)) = Fin v \<and>
        \<bar>v - 6\<bar> \<le> 6 / 2 ^ 53) \<and>
   toPixels numberToString (world_of_ratio 3) (Str ''10px'') = NaN \<and>
   toMeters numberToString (world_of_ratio 3) (Str ''10px'') =
     Fin (7505999378950827 / 2251799813685248)"
proof -
  have mg: "literal_magnitude [] False ''10'' = 10"
    by (simp add: literal_magnitude_def radix_val_def digit_val_def hex_digit_of_def digit_of_def)
  have n: "literal_number False [] False ''10'' = Fin 10"
    by (simp add: literal_number_def mg)
  have l: "px_literal False [] False ''10'' = ''10''"
    by (simp add: px_literal_def)
  have lo: "(2::rat) powi (emin + 52) \<le> 1"
    by (rule pow2_le_one) (simp add: emin_def)
  have hi: "(8::rat) \<le> 2 powi (emax - 1)"
    using power_int_increasing [of 3 "emax - 1" "2::rat"] by (simp add: emax_def)
  have range: "2 powi (emin + 52) \<le> \<bar>2::rat\<bar> * 3 \<and> \<bar>2::rat\<bar> * 3 < 2 powi (emax - 1)"
    using lo hi by simp
  have main: "toPixels numberToString (world_of_ratio 3)
          (Num (Fin (3602879701896397 / 36028797018963968))) =
          num_mul (Fin (3602879701896397 / 36028797018963968)) (Fin 3) \<and>
         (2 powi (emin + 52) \<le> \<bar>2::rat\<bar> * 3 \<and> \<bar>2::rat\<bar> * 3 < 2 powi (emax - 1) \<longrightarrow>
          (\<exists>v. toPixels numberToString (world_of_ratio 3) (Num (Fin 2)) = Fin v \<and>
               \<bar>v - 2 * 3\<bar> \<le> \<bar>2 * 3\<bar> / 2 ^ 53)) \<and>
         toPixels numberToString (world_of_ratio 3)
           (Str ([] @ px_literal False [] False ''10'' @ [] @ [CHR ''p'', CHR ''x''])) = NaN \<and>
         toMeters numberToString (world_of_ratio 3)
           (Str ([] @ px_literal False [] False ''10'' @ [] @ [CHR ''p'', CHR ''x''])) =
           num_div (literal_number False [] False ''10'') (Fin 3)"
    by (intro C9_conversions [where ?ws1.0 = "[]" and ?ws2.0 = "[]" and ?ds1.0 = "[]"
          and ?ds2.0 = "''10''" and p = "CHR ''p''" and x = "CHR ''x''"
          and w = "world_of_ratio 3" and r = 3 and ts = numberToString
          and neg = False and dot = False and q = 2
          and a = "Fin (3602879701896397 / 36028797018963968)"])
      (simp_all add: is_digit_def digit_of_def is_p_def is_x_def)
  from main have "toPixels numberToString (world_of_ratio 3) (Num (js_literal (1 / 10))) =
     Fin (1351079888211149 / 4503599627370496)"
    unfolding tenth three_tenths by blast
  moreover from main range
  have "\<exists>v. toPixels numberToString (world_of_ratio 3) (Num (Fin 2)) = Fin v \<and>
               \<bar>v - 2 * 3\<bar> \<le> \<bar>2 * 3\<bar> / 2 ^ 53"
    by blast
  then have "\<exists>v. toPixels numberToString (world_of_ratio 3) (Num (Fin 2)) = Fin v \<and>
        \<bar>v - 6\<bar> \<le> 6 / 2 ^ 53"
    by simp
  moreover from main
  have "toPixels numberToString (world_of_ratio 3) (Str ''10px'') = NaN"
    unfolding l by simp
  moreover from main
  have "toMeters numberToString (world_of_ratio 3) (Str ''10px'') =
     Fin (7505999378950827 / 2251799813685248)"
    unfolding l n third by simp
  ultimately show ?thesis by blast
qed

text \<open>
  C9 as stated has \<^verbatim>\<open>toPixels("10px")\<close> give 10 times the draw ratio.
\<close>

theorem C9_toPixels_string_counterexample:
  "toPixels numberToString (world_of_ratio 2) (Str ''10px'') = NaN \<and>
   toPixels numberToString (world_of_ratio 2) (Str ''10px'') \<noteq> Fin 20"
  by (simp add: toPixels_def char_defs parse_defs)

subsection \<open>C10: what the calls do to the caller's object\<close>

text \<open>
  C10, as the code has it. \<^verbatim>\<open>addBody\<close> leaves the caller's object with the defaults
  written into the omitted fields and every supplied field as it was: the converted
  distances and the forced shape tag go into a fresh object. \<^verbatim>\<open>randomImpulse\<close> writes its
  defaults into the omitted fields and overwrites \<^verbatim>\<open>scale\<close> with its conversion.
\<close>

theorem C10_caller_object:
  "fst (snd (addBody ts w (Some st))) = Some (merge body_defaults st) \<and>
   (\<forall>key. obj_get (merge body_defaults st) key =
      (if has_key st key then obj_get st key else obj_get body_defaults key)) \<and>
   (\<forall>key. obj_get (randomImpulse ts w st) key =
      (if key = ''scale''
       then parsePixels ts w (if has_key st ''scale'' then obj_get st ''scale'' else Str ''10px'')
       else if has_key st key then obj_get st key else obj_get impulse_defaults key))"
proof -
  have a: "fst (snd (addBody ts w (Some st))) = Some (merge body_defaults st)"
    using addBody_result [of ts w "Some st"]
    by (cases "make_shape ts w (converted ts w (merge body_defaults st))")
      (simp_all add: addBody_Some)
  have d: "obj_get impulse_defaults ''scale'' = Str ''10px''"
    by (simp add: impulse_defaults_def)
  show ?thesis
    by (simp add: a obj_get_merge randomImpulse_def Let_def obj_get_update d)
qed

text \<open>
  \<^verbatim>\<open>randomImpulse(body, {minAngle: 90})\<close> at draw ratio 2.
\<close>

theorem C10_caller_object_witness:
  "obj_get (randomImpulse numberToString (world_of_ratio 2) [(''minAngle'', Num (Fin 90))])
     ''scale'' = Num (Fin 5) \<and>
   obj_get (randomImpulse numberToString (world_of_ratio 2) [(''minAngle'', Num (Fin 90))])
     ''minAngle'' = Num (Fin 90) \<and>
   obj_get (randomImpulse numberToString (world_of_ratio 2) [(''minAngle'', Num (Fin 90))])
     ''maxAngle'' = Num (Fin 360)"
  using C10_caller_object [of numberToString "world_of_ratio 2" "[(''minAngle'', Num (Fin 90))]"]
  by (simp add: ten_px impulse_defaults_def)

text \<open>
  C10 as stated has \<^verbatim>\<open>addBody\<close> replace the distances and the shape tag in the caller's
  object. After a call with \<^verbatim>\<open>x: "10px"\<close> and three vertices the object still holds
  \<^verbatim>\<open>"10px"\<close>, and its shape is the default \<^verbatim>\<open>box\<close>.
\<close>

theorem C10_caller_object_counterexample:
  "fst (snd (addBody numberToString (world_of_ratio 2)
     (Some [(''x'', Str ''10px''),
            (''vertices'', Arr [Arr [Num (Fin 0), Num (Fin 0)], Arr [Num (Fin 1), Num (Fin 0)],
                                Arr [Num (Fin 0), Num (Fin 1)]])]))) =
   Some (merge body_defaults
          [(''x'', Str ''10px''),
           (''vertices'', Arr [Arr [Num (Fin 0), Num (Fin 0)], Arr [Num (Fin 1), Num (Fin 0)],
                               Arr [Num (Fin 0), Num (Fin 1)]])]) \<and>
   obj_get (merge body_defaults
          [(''x'', Str ''10px''),
           (''vertices'', Arr [Arr [Num (Fin 0), Num (Fin 0)], Arr [Num (Fin 1), Num (Fin 0)],
                               Arr [Num (Fin 0), Num (Fin 1)]])]) ''x'' = Str ''10px'' \<and>
   obj_get (merge body_defaults
          [(''x'', Str ''10px''),
           (''vertices'', Arr [Arr [Num (Fin 0), Num (Fin 0)], Arr [Num (Fin 1), Num (Fin 0)],
                               Arr [Num (Fin 0), Num (Fin 1)]])]) ''shape'' = Str ''box''"
proof -
  have "fst (snd (addBody numberToString (world_of_ratio 2) (Some st))) =
        Some (merge body_defaults st)" for st
    using addBody_result [of numberToString "world_of_ratio 2" "Some st"]
    by (cases "make_shape numberToString (world_of_ratio 2)
          (converted numberToString (world_of_ratio 2) (merge body_defaults st))")
      (simp_all add: addBody_Some)
  then show ?thesis by (simp add: settings_simps)
qed

end
